theory Spec2Isabelle
  imports Complex_Main
begin

section \<open>JavaScript values used by the explorer component\<close>

text \<open>
  A JavaScript number is an IEEE 754 binary64 value: a finite double (given by its real
  value), \<open>NaN\<close>, or one of the two infinities; the sign of a zero is not modelled.
  A real \<open>x\<close> is the value of a double when rounding leaves it as it is,
  \<open>fl x = Finite x\<close> below; what is proved of every \<open>Finite x\<close> holds of the doubles.
  Strings are \<open>string\<close>; where the component only tests a string for truthiness, the
  empty string stands for every falsy outcome (\<open>undefined\<close>, \<open>null\<close>, \<open>""\<close>).
  A value that is an object is given by the outcome of its conversion to a primitive
  (\<open>valueOf\<close>, \<open>toString\<close>): the primitive it yields, or the exception it throws.
  An exception is a \<open>TypeError\<close> or any other thrown value.
\<close>

datatype number = Finite real | NaN | PosInfinity | NegInfinity

datatype js_error = TypeError | Thrown

datatype jsval =
    VUndefined | VNull | VBool bool | VNum number | VStr string | VSymbol string
  | VBigInt int | VObject "js_error + jsval"

subsection \<open>Rounding to the nearest double\<close>

text \<open>
  Every arithmetic operation returns its exact result rounded to the nearest double,
  ties to the even significand.  \<open>binade n a p\<close> doubles \<open>p\<close> at most \<open>n\<close> times while
  it stays at or below \<open>a\<close>: from the least normal power of two, \<open>2^-1022\<close>, it finds the
  power of two at the foot of the binade of \<open>a\<close>.  The spacing of the doubles there is
  that power divided by \<open>2^52\<close> (so \<open>2^-1074\<close> among the subnormal numbers).  A result
  that rounds to \<open>2^1024\<close> or beyond in magnitude is an infinity.
\<close>

primrec binade :: "nat \<Rightarrow> real \<Rightarrow> real \<Rightarrow> real" where
  "binade 0 a p = p"
| "binade (Suc n) a p = (if 2 * p \<le> a then binade n a (2 * p) else p)"

definition quantum :: "real \<Rightarrow> real" where
  "quantum x = binade 2046 \<bar>x\<bar> (1 / 2 ^ 1022) / 2 ^ 52"

definition roundEven :: "real \<Rightarrow> int" where
  "roundEven r =
     (if r - of_int \<lfloor>r\<rfloor> < 1 / 2 then \<lfloor>r\<rfloor>
      else if 1 / 2 < r - of_int \<lfloor>r\<rfloor> then \<lfloor>r\<rfloor> + 1
      else if even \<lfloor>r\<rfloor> then \<lfloor>r\<rfloor> else \<lfloor>r\<rfloor> + 1)"

definition fl :: "real \<Rightarrow> number" where
  "fl x =
     (if 2 ^ 1024 \<le> \<bar>of_int (roundEven (x / quantum x)) * quantum x\<bar>
      then (if 0 < x then PosInfinity else NegInfinity)
      else Finite (of_int (roundEven (x / quantum x)) * quantum x))"

subsection \<open>Arithmetic on numbers\<close>

fun js_neg :: "number \<Rightarrow> number" where
  "js_neg (Finite x) = Finite (- x)"
| "js_neg NaN = NaN"
| "js_neg PosInfinity = NegInfinity"
| "js_neg NegInfinity = PosInfinity"

fun js_add :: "number \<Rightarrow> number \<Rightarrow> number" where
  "js_add (Finite x) (Finite y) = fl (x + y)"
| "js_add NaN b = NaN"
| "js_add a NaN = NaN"
| "js_add PosInfinity NegInfinity = NaN"
| "js_add NegInfinity PosInfinity = NaN"
| "js_add PosInfinity b = PosInfinity"
| "js_add a PosInfinity = PosInfinity"
| "js_add NegInfinity b = NegInfinity"
| "js_add a NegInfinity = NegInfinity"

definition js_sub :: "number \<Rightarrow> number \<Rightarrow> number" where
  "js_sub a b = js_add a (js_neg b)"

fun is_zero :: "number \<Rightarrow> bool" where
  "is_zero (Finite x) = (x = 0)"
| "is_zero n = False"

fun is_positive :: "number \<Rightarrow> bool" where
  "is_positive (Finite x) = (0 < x)"
| "is_positive PosInfinity = True"
| "is_positive n = False"

fun js_mul :: "number \<Rightarrow> number \<Rightarrow> number" where
  "js_mul (Finite x) (Finite y) = fl (x * y)"
| "js_mul NaN b = NaN"
| "js_mul a NaN = NaN"
| "js_mul a b =
     (if is_zero a \<or> is_zero b then NaN
      else if is_positive a = is_positive b then PosInfinity else NegInfinity)"

text \<open>\<open>x / 2\<close>.\<close>

fun js_half :: "number \<Rightarrow> number" where
  "js_half (Finite x) = fl (x / 2)"
| "js_half n = n"

text \<open>
  \<open>Math.round\<close> rounds halves towards plus infinity and \<open>Math.ceil\<close> is the ceiling;
  both are exact on doubles.  \<open>x || 0\<close> replaces the falsy numbers, zero and \<open>NaN\<close>,
  by zero.
\<close>

fun Math_round :: "number \<Rightarrow> number" where
  "Math_round (Finite x) = Finite (of_int \<lfloor>x + 1 / 2\<rfloor>)"
| "Math_round n = n"

fun Math_ceil :: "number \<Rightarrow> number" where
  "Math_ceil (Finite x) = Finite (of_int \<lceil>x\<rceil>)"
| "Math_ceil n = n"

fun or_zero :: "number \<Rightarrow> number" where
  "or_zero NaN = Finite 0"
| "or_zero n = n"

text \<open>The numbers that are zero, positive or plus infinity.\<close>

fun nonneg :: "number \<Rightarrow> bool" where
  "nonneg (Finite x) = (0 \<le> x)"
| "nonneg PosInfinity = True"
| "nonneg n = False"

text \<open>
  A JavaScript \<open>Map\<close> keeps its keys in insertion order: an association list in which
  \<open>set\<close> overwrites the value of a key already present and appends a new key at the end.
\<close>

definition Map_get :: "('k \<times> 'v) list \<Rightarrow> 'k \<Rightarrow> 'v option" where
  "Map_get m k = map_of m k"

primrec Map_set :: "'k \<Rightarrow> 'v \<Rightarrow> ('k \<times> 'v) list \<Rightarrow> ('k \<times> 'v) list" where
  "Map_set k v [] = [(k, v)]"
| "Map_set k v (e # es) = (if fst e = k then (k, v) # es else e # Map_set k v es)"

text \<open>
  The two work arrays of the re-flow.  A cell of \<open>maxHeightByDepth\<close> is either a finite
  number or \<open>None\<close>, which stands for both \<open>undefined\<close> (a hole, or a read past the end)
  and \<open>NaN\<close>: the code only passes such a cell to \<open>Math.max\<close> and tests it with \<open>!\<close>,
  and both values behave alike there.  Writing past the end extends the array.
\<close>

definition Array_get :: "real option list \<Rightarrow> nat \<Rightarrow> real option" where
  "Array_get a i = (if i < length a then a ! i else None)"

definition Array_set :: "real option list \<Rightarrow> nat \<Rightarrow> real option \<Rightarrow> real option list" where
  "Array_set a i v =
     (if i < length a then a[i := v] else a @ replicate (i - length a) None @ [v])"

definition Math_max :: "real option \<Rightarrow> real \<Rightarrow> real option" where
  "Math_max c h = (case c of None \<Rightarrow> None | Some a \<Rightarrow> Some (max a h))"

section \<open>Data model\<close>

record edge =
  parentId :: string
  childId :: string

record 'c node =
  node_id :: "string option"
  node_data :: 'c

record 'c hierarchy =
  h_rootId :: "string option"
  h_nodes :: "'c node list"
  h_edges :: "edge list"
  h_capped :: bool
  h_capMessage :: "string option"

record base_position =
  bp_left :: real
  bp_centerX :: real
  bp_depth :: nat

record position =
  pos_left :: real
  pos_top :: number
  pos_depth :: nat
  pos_centerX :: real
  pos_centerY :: number
  pos_bottomY :: number

record layout_options =
  opt_nodeWidth :: real
  opt_nodeHeight :: real
  opt_gapX :: real
  opt_gapY :: real

record layout_meta =
  basePositionsById :: "(string \<times> base_position) list"
  positionsById :: "(string \<times> position) list"
  nodeWidth :: real
  nodeMaxHeight :: real
  gapY :: real
  maxDepth :: nat

record 'c positioned_node =
  pn_id :: string
  pn_card :: "'c node"
  pn_style_left :: real
  pn_style_top :: number
  pn_style_width :: real
  pn_scroll_max_height :: real

text \<open>
  The numeric fields that hold inputs of the arithmetic (coordinates of the initial
  layout, the nominal sizes and gaps, pointer coordinates) are finite doubles, given by
  their real values; the fields that hold results of arithmetic are numbers.

  The imported helpers whose code is in other modules are parameters of the model:
  \<open>normalizeString\<close> (its falsy results are the empty string), the initial tree layout
  \<open>computeTreeLayout\<close> (the position map in iteration order, and the width of the bounds),
  \<open>buildOrthogonalPaths\<close>, the card normalisation, and the numeric value of a string
  under \<open>Number\<close>.
\<close>

record ('c, 'p) env =
  normalizeString :: "jsval \<Rightarrow> string"
  computeTreeLayout ::
    "'c node list \<Rightarrow> edge list \<Rightarrow> layout_options \<Rightarrow> (string \<times> base_position) list \<times> real"
  buildOrthogonalPaths :: "edge list \<Rightarrow> (string \<times> position) list \<Rightarrow> 'p list"
  normalizeCardForDisplay :: "'c node \<Rightarrow> 'c node"
  stringToNumber :: "string \<Rightarrow> number"

text \<open>The fields of the component that the modelled operations read or write.\<close>

record ('c, 'p) state =
  recordId :: jsval
  templateDeveloperName :: jsval
  rootRecordId :: jsval
  hierarchy :: "'c hierarchy option"
  errorMessage :: "string option"
  isLoading :: bool
  positionedNodes :: "'c positioned_node list"
  connectorPaths :: "'p list"
  canvasWidth :: number
  canvasHeight :: number
  scale :: number
  translateX :: number
  translateY :: number
  isPanning :: bool
  panStartX :: real
  panStartY :: real
  panStartTranslateX :: number
  panStartTranslateY :: number
  activePointerId :: "int option"
  pendingCenter :: bool
  layoutMeta :: "layout_meta option"
  centeredHierarchyKey :: "string option"
  measuredHeightsById :: "(string \<times> number) list"
  nodeEntries :: "(string \<times> 'c node) list"
  edges :: "edge list"

definition MAX_LEVELS :: nat where "MAX_LEVELS = 10"
definition MAX_NODES :: nat where "MAX_NODES = 50"
definition DEFAULT_NODE_WIDTH :: real where "DEFAULT_NODE_WIDTH = 280"
definition DEFAULT_NODE_HEIGHT :: real where "DEFAULT_NODE_HEIGHT = 180"
definition GAP_X :: real where "GAP_X = 60"
definition GAP_Y :: real where "GAP_Y = 70"

section \<open>Row-height re-flow: \<open>applyRowHeightLayout\<close>\<close>

text \<open>
  The height a node contributes: \<open>Number.isFinite(measured) && measured > 0 ?
  Math.min(measured, nodeMaxHeight) : nodeMaxHeight\<close>.
\<close>

definition nodeHeight :: "(string \<times> number) list \<Rightarrow> real \<Rightarrow> string \<Rightarrow> real" where
  "nodeHeight measuredMap maxH ident =
     (case Map_get measuredMap ident of
        Some (Finite m) \<Rightarrow> if m > 0 then min m maxH else maxH
      | _ \<Rightarrow> maxH)"

text \<open>First loop: the maximum height per depth, starting from an array of zeros.\<close>

definition maxHeightStep ::
  "(string \<times> number) list \<Rightarrow> real \<Rightarrow> string \<times> base_position \<Rightarrow> real option list \<Rightarrow> real option list" where
  "maxHeightStep measuredMap maxH e a =
     Array_set a (bp_depth (snd e))
       (Math_max (Array_get a (bp_depth (snd e))) (nodeHeight measuredMap maxH (fst e)))"

definition maxHeightLoop ::
  "(string \<times> number) list \<Rightarrow> layout_meta \<Rightarrow> real option list" where
  "maxHeightLoop measuredMap meta =
     fold (maxHeightStep measuredMap (nodeMaxHeight meta)) (basePositionsById meta)
       (replicate (maxDepth meta + 1) (Some 0))"

text \<open>Second loop: every falsy cell (zero, \<open>NaN\<close>, a hole) becomes the nominal height.\<close>

definition fillFalsy :: "real \<Rightarrow> real option \<Rightarrow> real" where
  "fillFalsy maxH c = (case c of None \<Rightarrow> maxH | Some a \<Rightarrow> if a = 0 then maxH else a)"

definition maxHeightByDepth :: "(string \<times> number) list \<Rightarrow> layout_meta \<Rightarrow> real list" where
  "maxHeightByDepth measuredMap meta =
     map (fillFalsy (nodeMaxHeight meta)) (maxHeightLoop measuredMap meta)"

text \<open>
  Third loop: \<open>topByDepth[depth] = topByDepth[depth - 1] + maxHeightByDepth[depth - 1] + gapY\<close>
  for \<open>depth = 1 .. maxDepth\<close>; both arrays have at least \<open>maxDepth + 1\<close> cells.
\<close>

definition topStep :: "real list \<Rightarrow> real \<Rightarrow> nat \<Rightarrow> number list \<Rightarrow> number list" where
  "topStep mh g d tops =
     tops[d := js_add (js_add (tops ! (d - 1)) (Finite (mh ! (d - 1)))) (Finite g)]"

definition topByDepth :: "(string \<times> number) list \<Rightarrow> layout_meta \<Rightarrow> number list" where
  "topByDepth measuredMap meta =
     fold (topStep (maxHeightByDepth measuredMap meta) (gapY meta))
       [1 ..< maxDepth meta + 1] (replicate (maxDepth meta + 1) (Finite 0))"

text \<open>
  \<open>arr[i] || 0\<close>: on the array of tops, whose cells are numbers, and on the array of
  row heights, whose cells are finite.  A read past the end is \<open>undefined\<close>, hence zero.
\<close>

definition top_or_0 :: "number list \<Rightarrow> nat \<Rightarrow> number" where
  "top_or_0 a i = (if i < length a then or_zero (a ! i) else Finite 0)"

definition get_or_0 :: "real list \<Rightarrow> nat \<Rightarrow> real" where
  "get_or_0 a i = (if i < length a then a ! i else 0)"

definition adjustStep ::
  "(string \<times> number) list \<Rightarrow> real \<Rightarrow> number list \<Rightarrow> string \<times> base_position \<Rightarrow>
     (string \<times> position) list \<Rightarrow> (string \<times> position) list" where
  "adjustStep measuredMap maxH tops e acc =
     (let height = nodeHeight measuredMap maxH (fst e);
          top = top_or_0 tops (bp_depth (snd e))
      in Map_set (fst e)
           \<lparr> pos_left = bp_left (snd e), pos_top = top, pos_depth = bp_depth (snd e),
             pos_centerX = bp_centerX (snd e),
             pos_centerY = js_add top (js_half (Finite height)),
             pos_bottomY = js_add top (Finite height) \<rparr> acc)"

definition adjustedPositionsById ::
  "(string \<times> number) list \<Rightarrow> layout_meta \<Rightarrow> (string \<times> position) list" where
  "adjustedPositionsById measuredMap meta =
     fold (adjustStep measuredMap (nodeMaxHeight meta) (topByDepth measuredMap meta))
       (basePositionsById meta) []"

definition lastRowBottom :: "(string \<times> number) list \<Rightarrow> layout_meta \<Rightarrow> number" where
  "lastRowBottom measuredMap meta =
     js_add (top_or_0 (topByDepth measuredMap meta) (maxDepth meta))
       (Finite (get_or_0 (maxHeightByDepth measuredMap meta) (maxDepth meta)))"

definition positionNode ::
  "layout_meta \<Rightarrow> (string \<times> position) list \<Rightarrow> string \<times> 'c node \<Rightarrow> 'c positioned_node option" where
  "positionNode meta adjusted entry =
     (case Map_get adjusted (fst entry) of
        None \<Rightarrow> None
      | Some pos \<Rightarrow>
          Some \<lparr> pn_id = fst entry, pn_card = snd entry, pn_style_left = pos_left pos,
                 pn_style_top = pos_top pos, pn_style_width = nodeWidth meta,
                 pn_scroll_max_height = nodeMaxHeight meta \<rparr>)"

definition applyRowHeightLayout :: "('c, 'p) env \<Rightarrow> ('c, 'p) state \<Rightarrow> ('c, 'p) state" where
  "applyRowHeightLayout E s =
     (case layoutMeta s of
        None \<Rightarrow> s
      | Some meta \<Rightarrow>
          (let adjusted = adjustedPositionsById (measuredHeightsById s) meta
           in s \<lparr> canvasHeight :=
                     Math_ceil
                       (js_add (lastRowBottom (measuredHeightsById s) meta) (Finite (gapY meta))),
                   layoutMeta := Some (meta \<lparr> positionsById := adjusted \<rparr>),
                   positionedNodes :=
                     List.map_filter (positionNode meta adjusted) (nodeEntries s),
                   connectorPaths := buildOrthogonalPaths E (edges s) adjusted \<rparr>))"

section \<open>Loading a hierarchy: \<open>buildRenderModel\<close>\<close>

definition basePositionStep ::
  "string \<times> base_position \<Rightarrow> (string \<times> base_position) list \<Rightarrow> (string \<times> base_position) list" where
  "basePositionStep e acc =
     Map_set (fst e)
       \<lparr> bp_left = bp_left (snd e), bp_centerX = bp_centerX (snd e),
         bp_depth = bp_depth (snd e) \<rparr> acc"

definition maxDepthStep :: "string \<times> base_position \<Rightarrow> nat \<Rightarrow> nat" where
  "maxDepthStep e m = max m (bp_depth (snd e))"

definition nodeEntry :: "('c, 'p) env \<Rightarrow> 'c node \<Rightarrow> (string \<times> 'c node) option" where
  "nodeEntry E n =
     (case node_id n of
        None \<Rightarrow> None
      | Some i \<Rightarrow> if i = [] then None else Some (i, normalizeCardForDisplay E n))"

definition layoutOptions :: layout_options where
  "layoutOptions =
     \<lparr> opt_nodeWidth = DEFAULT_NODE_WIDTH, opt_nodeHeight = DEFAULT_NODE_HEIGHT,
       opt_gapX = GAP_X, opt_gapY = GAP_Y \<rparr>"

definition hierarchyNodes :: "('c, 'p) state \<Rightarrow> 'c node list" where
  "hierarchyNodes s = (case hierarchy s of None \<Rightarrow> [] | Some h \<Rightarrow> h_nodes h)"

definition hierarchyEdges :: "('c, 'p) state \<Rightarrow> edge list" where
  "hierarchyEdges s = (case hierarchy s of None \<Rightarrow> [] | Some h \<Rightarrow> h_edges h)"

definition builtLayoutMeta :: "('c, 'p) env \<Rightarrow> ('c, 'p) state \<Rightarrow> layout_meta" where
  "builtLayoutMeta E s =
     (let layout = computeTreeLayout E (hierarchyNodes s) (hierarchyEdges s) layoutOptions
      in \<lparr> basePositionsById = fold basePositionStep (fst layout) [],
            positionsById = [],
            nodeWidth = DEFAULT_NODE_WIDTH,
            nodeMaxHeight = DEFAULT_NODE_HEIGHT,
            gapY = GAP_Y,
            maxDepth = fold maxDepthStep (fst layout) 0 \<rparr>)"

definition buildRenderModel :: "('c, 'p) env \<Rightarrow> ('c, 'p) state \<Rightarrow> ('c, 'p) state" where
  "buildRenderModel E s =
     (applyRowHeightLayout E
        (s \<lparr> measuredHeightsById := [],
              edges := hierarchyEdges s,
              canvasWidth :=
                Math_ceil
                  (js_add
                     (Finite (snd (computeTreeLayout E (hierarchyNodes s) (hierarchyEdges s)
                        layoutOptions)))
                     (Finite GAP_X)),
              layoutMeta := Some (builtLayoutMeta E s),
              nodeEntries := List.map_filter (nodeEntry E) (hierarchyNodes s) \<rparr>))
       \<lparr> pendingCenter := True \<rparr>"

section \<open>The public re-flow operations\<close>

definition relayout :: "('c, 'p) env \<Rightarrow> ('c, 'p) state \<Rightarrow> ('c, 'p) state" where
  "relayout E s = applyRowHeightLayout E s"

text \<open>
  \<open>Number(value)\<close>.  On a primitive: a symbol cannot be converted and raises a
  \<open>TypeError\<close>, a BigInt becomes the nearest double, and every other primitive has a
  numeric value.  An object (an array, a date, any other object) is first converted to
  a primitive by its own methods, which may throw; a conversion that yields no
  primitive is a \<open>TypeError\<close>.
\<close>

fun ToNumber :: "('c, 'p) env \<Rightarrow> jsval \<Rightarrow> js_error + number" where
  "ToNumber E VUndefined = Inr NaN"
| "ToNumber E VNull = Inr (Finite 0)"
| "ToNumber E (VBool b) = Inr (Finite (if b then 1 else 0))"
| "ToNumber E (VNum n) = Inr n"
| "ToNumber E (VStr str) = Inr (stringToNumber E str)"
| "ToNumber E (VSymbol d) = Inl TypeError"
| "ToNumber E (VBigInt i) = Inr (fl (of_int i))"
| "ToNumber E (VObject p) = Inl TypeError"

fun Number :: "('c, 'p) env \<Rightarrow> jsval \<Rightarrow> js_error + number" where
  "Number E (VObject (Inl err)) = Inl err"
| "Number E (VObject (Inr prim)) = ToNumber E prim"
| "Number E v = ToNumber E v"

text \<open>
  The argument of \<open>relayoutWithHeights\<close>: a value that is falsy or whose \<open>typeof\<close> is
  not \<open>"object"\<close> (\<open>undefined\<close>, \<open>null\<close>, a primitive, a function); an object given by
  its own enumerable string-keyed properties in the order of \<open>Object.entries\<close>; or an
  object whose enumeration throws (a getter or a proxy trap that throws).
\<close>

datatype heights_arg =
    NotAnObject
  | Object "(string \<times> jsval) list"
  | Unenumerable js_error

text \<open>The \<open>forEach\<close> over the entries; an exception of the callback ends the loop.\<close>

fun collectHeights ::
  "('c, 'p) env \<Rightarrow> (string \<times> jsval) list \<Rightarrow> (string \<times> number) list \<Rightarrow>
     js_error + (string \<times> number) list" where
  "collectHeights E [] nextMap = Inr nextMap"
| "collectHeights E ((ident, height) # rest) nextMap =
     (if ident = [] then collectHeights E rest nextMap
      else case Number E height of
             Inl err \<Rightarrow> Inl err
           | Inr (Finite numeric) \<Rightarrow>
               if numeric > 0
               then collectHeights E rest (Map_set ident (Finite numeric) nextMap)
               else collectHeights E rest nextMap
           | Inr _ \<Rightarrow> collectHeights E rest nextMap)"

definition relayoutWithHeights ::
  "('c, 'p) env \<Rightarrow> heights_arg \<Rightarrow> ('c, 'p) state \<Rightarrow> js_error + ('c, 'p) state" where
  "relayoutWithHeights E heightsById s =
     (case (case heightsById of
              NotAnObject \<Rightarrow> Inr []
            | Object entries \<Rightarrow> collectHeights E entries []
            | Unenumerable err \<Rightarrow> Inl err) of
        Inl err \<Rightarrow> Inl err
      | Inr nextMap \<Rightarrow> Inr (applyRowHeightLayout E (s \<lparr> measuredHeightsById := nextMap \<rparr>)))"

section \<open>Root selection and the hierarchy fetch\<close>

text \<open>\<open>a || b\<close> on strings: the empty string is falsy.\<close>

definition or_else :: "string \<Rightarrow> string \<Rightarrow> string" where
  "or_else a b = (if a = [] then b else a)"

definition effectiveRootRecordId :: "('c, 'p) env \<Rightarrow> ('c, 'p) state \<Rightarrow> string" where
  "effectiveRootRecordId E s =
     or_else (normalizeString E (rootRecordId s)) (normalizeString E (recordId s))"

record request =
  req_templateDeveloperName :: string
  req_effectiveRootRecordId :: string
  req_maxLevels :: nat
  req_maxNodes :: nat

text \<open>
  The synchronous part of \<open>refreshHierarchy\<close>: the new state, and the request handed
  to \<open>getHierarchy\<close> when one is issued.
\<close>

definition refreshHierarchy ::
  "('c, 'p) env \<Rightarrow> ('c, 'p) state \<Rightarrow> ('c, 'p) state \<times> request option" where
  "refreshHierarchy E s =
     (if normalizeString E (templateDeveloperName s) = [] \<or> effectiveRootRecordId E s = []
      then (s \<lparr> hierarchy := None, errorMessage := None \<rparr>, None)
      else (s \<lparr> isLoading := True, errorMessage := None \<rparr>,
            Some \<lparr> req_templateDeveloperName = normalizeString E (templateDeveloperName s),
                   req_effectiveRootRecordId = effectiveRootRecordId E s,
                   req_maxLevels = MAX_LEVELS,
                   req_maxNodes = MAX_NODES \<rparr>))"

text \<open>
  The callbacks of the promise: \<open>then\<close> followed by \<open>finally\<close> when the fetch resolves,
  \<open>catch\<close> followed by \<open>finally\<close> when it is rejected with an error whose parsed
  message is \<open>message\<close>.  The second component is the title of the error toast shown.
\<close>

definition onFetchResolved ::
  "('c, 'p) env \<Rightarrow> 'c hierarchy option \<Rightarrow> ('c, 'p) state \<Rightarrow> ('c, 'p) state" where
  "onFetchResolved E result s =
     ((buildRenderModel E (s \<lparr> hierarchy := result \<rparr>)) \<lparr> pendingCenter := True \<rparr>)
       \<lparr> isLoading := False \<rparr>"

definition onFetchRejected :: "string \<Rightarrow> ('c, 'p) state \<Rightarrow> ('c, 'p) state \<times> string" where
  "onFetchRejected message s =
     ((s \<lparr> hierarchy := None, positionedNodes := [], connectorPaths := [],
            errorMessage := Some message \<rparr>) \<lparr> isLoading := False \<rparr>,
      ''Hierarchy Explorer Error'')"

text \<open>
  The component together with the fetches in flight and the toasts shown so far.  A
  fetch in flight settles at any later time, in any order; a settlement that names no
  fetch in flight does not happen.
\<close>

record ('c, 'p) system =
  component :: "('c, 'p) state"
  inFlight :: "request list"
  toasts :: "string list"

datatype 'c event =
    SetRecordId jsval
  | SetTemplateDeveloperName jsval
  | SetRootRecordId jsval
  | RefreshHierarchy
  | FetchResolved nat "'c hierarchy option"
  | FetchRejected nat string

definition removeAt :: "nat \<Rightarrow> 'a list \<Rightarrow> 'a list" where
  "removeAt k xs = take k xs @ drop (Suc k) xs"

fun step :: "('c, 'p) env \<Rightarrow> 'c event \<Rightarrow> ('c, 'p) system \<Rightarrow> ('c, 'p) system" where
  "step E (SetRecordId v) sys = sys \<lparr> component := (component sys) \<lparr> recordId := v \<rparr> \<rparr>"
| "step E (SetTemplateDeveloperName v) sys =
     sys \<lparr> component := (component sys) \<lparr> templateDeveloperName := v \<rparr> \<rparr>"
| "step E (SetRootRecordId v) sys =
     sys \<lparr> component := (component sys) \<lparr> rootRecordId := v \<rparr> \<rparr>"
| "step E RefreshHierarchy sys =
     (case snd (refreshHierarchy E (component sys)) of
        None \<Rightarrow> sys \<lparr> component := fst (refreshHierarchy E (component sys)) \<rparr>
      | Some req \<Rightarrow>
          sys \<lparr> component := fst (refreshHierarchy E (component sys)),
                inFlight := inFlight sys @ [req] \<rparr>)"
| "step E (FetchResolved k result) sys =
     (if k < length (inFlight sys)
      then sys \<lparr> component := onFetchResolved E result (component sys),
                 inFlight := removeAt k (inFlight sys) \<rparr>
      else sys)"
| "step E (FetchRejected k message) sys =
     (if k < length (inFlight sys)
      then sys \<lparr> component := fst (onFetchRejected message (component sys)),
                 inFlight := removeAt k (inFlight sys),
                 toasts := toasts sys @ [snd (onFetchRejected message (component sys))] \<rparr>
      else sys)"

definition run :: "('c, 'p) env \<Rightarrow> 'c event list \<Rightarrow> ('c, 'p) system \<Rightarrow> ('c, 'p) system" where
  "run E evs sys = fold (step E) evs sys"

section \<open>The cap warning\<close>

definition isCapped :: "('c, 'p) state \<Rightarrow> bool" where
  "isCapped s = (case hierarchy s of None \<Rightarrow> False | Some h \<Rightarrow> h_capped h)"

definition capMessage :: "('c, 'p) state \<Rightarrow> string" where
  "capMessage s =
     (case hierarchy s of
        None \<Rightarrow> ''Results were capped.''
      | Some h \<Rightarrow>
          (case h_capMessage h of
             None \<Rightarrow> ''Results were capped.''
           | Some m \<Rightarrow> if m = [] then ''Results were capped.'' else m))"

section \<open>Centering the root in the viewport\<close>

text \<open>
  What the component reads of the viewport element: whether the query finds it, the
  rectangle \<open>getBoundingClientRect\<close> returns (if any), and its width and height (if
  present); \<open>rect?.width || 0\<close> is \<open>dimension\<close>.
\<close>

record dom_rect =
  rect_width :: "real option"
  rect_height :: "real option"

datatype viewport = NoViewport | Viewport "dom_rect option"

definition dimension :: "real option \<Rightarrow> real" where
  "dimension d = (case d of None \<Rightarrow> 0 | Some x \<Rightarrow> x)"

definition viewportWidth :: "dom_rect option \<Rightarrow> real" where
  "viewportWidth rect = (case rect of None \<Rightarrow> 0 | Some r \<Rightarrow> dimension (rect_width r))"

definition viewportHeight :: "dom_rect option \<Rightarrow> real" where
  "viewportHeight rect = (case rect of None \<Rightarrow> 0 | Some r \<Rightarrow> dimension (rect_height r))"

text \<open>Decimal digits of a count, as a template literal prints it.\<close>

definition digit :: "nat \<Rightarrow> char" where
  "digit d = ''0123456789'' ! d"

function string_of_nat :: "nat \<Rightarrow> string" where
  "string_of_nat n =
     (if n < 10 then [digit n] else string_of_nat (n div 10) @ [digit (n mod 10)])"
  by pat_completeness auto
termination
  by (relation "measure id") auto

declare string_of_nat.simps [simp del]

definition rootIdValue :: "('c, 'p) state \<Rightarrow> string option" where
  "rootIdValue s = (case hierarchy s of None \<Rightarrow> None | Some h \<Rightarrow> h_rootId h)"

definition firstNodeIdValue :: "('c, 'p) state \<Rightarrow> string option" where
  "firstNodeIdValue s = (case hierarchyNodes s of [] \<Rightarrow> None | n # ns \<Rightarrow> node_id n)"

definition string_value :: "string option \<Rightarrow> jsval" where
  "string_value v = (case v of None \<Rightarrow> VUndefined | Some str \<Rightarrow> VStr str)"

definition string_or_empty :: "string option \<Rightarrow> string" where
  "string_or_empty v = (case v of None \<Rightarrow> [] | Some str \<Rightarrow> str)"

definition hierarchyKey :: "('c, 'p) env \<Rightarrow> ('c, 'p) state \<Rightarrow> string" where
  "hierarchyKey E s =
     normalizeString E (templateDeveloperName s) @ ''|''
       @ normalizeString E (VStr (effectiveRootRecordId E s)) @ ''|''
       @ string_or_empty (rootIdValue s) @ ''|''
       @ string_of_nat (length (hierarchyNodes s)) @ ''|''
       @ string_of_nat (length (hierarchyEdges s))"

definition resolvedRootId :: "('c, 'p) env \<Rightarrow> ('c, 'p) state \<Rightarrow> string" where
  "resolvedRootId E s =
     or_else (normalizeString E (string_value (rootIdValue s)))
       (or_else (normalizeString E (VStr (effectiveRootRecordId E s)))
          (normalizeString E (string_value (firstNodeIdValue s))))"

definition currentScale :: "('c, 'p) state \<Rightarrow> real" where
  "currentScale s = (case scale s of Finite r \<Rightarrow> r | _ \<Rightarrow> 1)"

definition centerRootInViewport ::
  "('c, 'p) env \<Rightarrow> viewport \<Rightarrow> ('c, 'p) state \<Rightarrow> bool \<times> ('c, 'p) state" where
  "centerRootInViewport E vp s =
     (case vp of
        NoViewport \<Rightarrow> (False, s)
      | Viewport rect \<Rightarrow>
          (case layoutMeta s of
             None \<Rightarrow> (False, s)
           | Some meta \<Rightarrow>
               if viewportWidth rect \<le> 0 \<or> viewportHeight rect \<le> 0 then (False, s)
               else if centeredHierarchyKey s = Some (hierarchyKey E s) then (True, s)
               else if resolvedRootId E s = [] then (False, s)
               else (case Map_get (positionsById meta) (resolvedRootId E s) of
                       None \<Rightarrow> (False, s)
                     | Some rootPos \<Rightarrow>
                         (True,
                          s \<lparr> translateX :=
                                Math_round
                                  (js_sub (js_half (Finite (viewportWidth rect)))
                                     (js_mul (Finite (pos_centerX rootPos))
                                        (Finite (currentScale s)))),
                              translateY :=
                                Math_round
                                  (js_sub (js_half (Finite (viewportHeight rect)))
                                     (js_mul (pos_centerY rootPos) (Finite (currentScale s)))),
                              centeredHierarchyKey := Some (hierarchyKey E s) \<rparr>))))"

definition tryCenterRootInViewport ::
  "('c, 'p) env \<Rightarrow> viewport \<Rightarrow> ('c, 'p) state \<Rightarrow> ('c, 'p) state" where
  "tryCenterRootInViewport E vp s =
     (if fst (centerRootInViewport E vp s)
      then (snd (centerRootInViewport E vp s)) \<lparr> pendingCenter := False \<rparr>
      else snd (centerRootInViewport E vp s))"

definition recenter :: "('c, 'p) env \<Rightarrow> viewport \<Rightarrow> ('c, 'p) state \<Rightarrow> ('c, 'p) state" where
  "recenter E vp s = tryCenterRootInViewport E vp (s \<lparr> pendingCenter := True \<rparr>)"

section \<open>Starting a pan gesture\<close>

text \<open>
  A pointer-down event as the handler reads it: whether \<open>target.closest\<close> finds the
  controls, a node box or a card above the target, the button, the pointer, its
  position, and whether the element the handler is bound to offers
  \<open>setPointerCapture\<close>.
\<close>

record pointer_event =
  ev_inControls :: bool
  ev_inNode :: bool
  ev_inCard :: bool
  ev_button :: int
  ev_pointerId :: int
  ev_clientX :: real
  ev_clientY :: real
  ev_capturable :: bool

datatype effect = SetPointerCapture int | PreventDefault

definition handleCanvasPointerDown ::
  "pointer_event option \<Rightarrow> ('c, 'p) state \<Rightarrow> ('c, 'p) state \<times> effect list" where
  "handleCanvasPointerDown event s =
     (case event of
        None \<Rightarrow> (s, [])
      | Some ev \<Rightarrow>
          if isPanning s then (s, [])
          else if ev_inControls ev \<or> ev_inNode ev \<or> ev_inCard ev then (s, [])
          else if ev_button ev \<noteq> 0 then (s, [])
          else (s \<lparr> isPanning := True,
                    activePointerId := Some (ev_pointerId ev),
                    panStartX := ev_clientX ev,
                    panStartY := ev_clientY ev,
                    panStartTranslateX := translateX s,
                    panStartTranslateY := translateY s \<rparr>,
                (if ev_capturable ev then [SetPointerCapture (ev_pointerId ev)] else [])
                  @ [PreventDefault]))"

section \<open>The row geometry in the words of the specification\<close>

text \<open>
  The heights of the nodes of one row, the row's maximum (the nominal height for a row
  without nodes), the row top as the running sum over the shallower rows, and the
  position a node of the base layout is to receive.  The sums are sums of doubles: each
  addition and the halving round to the nearest double.
\<close>

definition rowHeights :: "(string \<times> number) list \<Rightarrow> layout_meta \<Rightarrow> nat \<Rightarrow> real list" where
  "rowHeights measuredMap meta d =
     map (\<lambda>e. nodeHeight measuredMap (nodeMaxHeight meta) (fst e))
       (filter (\<lambda>e. bp_depth (snd e) = d) (basePositionsById meta))"

definition rowMaxHeight :: "(string \<times> number) list \<Rightarrow> layout_meta \<Rightarrow> nat \<Rightarrow> real" where
  "rowMaxHeight measuredMap meta d =
     (if rowHeights measuredMap meta d = [] then nodeMaxHeight meta
      else Max (set (rowHeights measuredMap meta d)))"

primrec rowTop :: "(string \<times> number) list \<Rightarrow> layout_meta \<Rightarrow> nat \<Rightarrow> number" where
  "rowTop measuredMap meta 0 = Finite 0"
| "rowTop measuredMap meta (Suc d) =
     js_add (js_add (rowTop measuredMap meta d) (Finite (rowMaxHeight measuredMap meta d)))
       (Finite (gapY meta))"

definition rowPosition ::
  "(string \<times> number) list \<Rightarrow> layout_meta \<Rightarrow> string \<Rightarrow> base_position \<Rightarrow> position" where
  "rowPosition measuredMap meta ident bp =
     \<lparr> pos_left = bp_left bp,
       pos_top = rowTop measuredMap meta (bp_depth bp),
       pos_depth = bp_depth bp,
       pos_centerX = bp_centerX bp,
       pos_centerY =
         js_add (rowTop measuredMap meta (bp_depth bp))
           (js_half (Finite (nodeHeight measuredMap (nodeMaxHeight meta) ident))),
       pos_bottomY =
         js_add (rowTop measuredMap meta (bp_depth bp))
           (Finite (nodeHeight measuredMap (nodeMaxHeight meta) ident)) \<rparr>"

definition rowCanvasHeight :: "(string \<times> number) list \<Rightarrow> layout_meta \<Rightarrow> number" where
  "rowCanvasHeight measuredMap meta =
     Math_ceil
       (js_add
          (js_add (rowTop measuredMap meta (maxDepth meta))
             (Finite (rowMaxHeight measuredMap meta (maxDepth meta))))
          (Finite (gapY meta)))"

text \<open>
  The same geometry in exact real arithmetic, with no rounding.  The two agree when no
  sum is rounded: \<open>onGrid k x\<close> says that \<open>x\<close> is a whole multiple of \<open>2^-k\<close>, and the
  measured heights are on the grid when each finite one is.
\<close>

primrec exactRowTop :: "(string \<times> number) list \<Rightarrow> layout_meta \<Rightarrow> nat \<Rightarrow> real" where
  "exactRowTop measuredMap meta 0 = 0"
| "exactRowTop measuredMap meta (Suc d) =
     exactRowTop measuredMap meta d + (rowMaxHeight measuredMap meta d + gapY meta)"

definition exactRowPosition ::
  "(string \<times> number) list \<Rightarrow> layout_meta \<Rightarrow> string \<Rightarrow> base_position \<Rightarrow> position" where
  "exactRowPosition measuredMap meta ident bp =
     \<lparr> pos_left = bp_left bp,
       pos_top = Finite (exactRowTop measuredMap meta (bp_depth bp)),
       pos_depth = bp_depth bp,
       pos_centerX = bp_centerX bp,
       pos_centerY =
         Finite (exactRowTop measuredMap meta (bp_depth bp)
           + nodeHeight measuredMap (nodeMaxHeight meta) ident / 2),
       pos_bottomY =
         Finite (exactRowTop measuredMap meta (bp_depth bp)
           + nodeHeight measuredMap (nodeMaxHeight meta) ident) \<rparr>"

definition exactCanvasHeight :: "(string \<times> number) list \<Rightarrow> layout_meta \<Rightarrow> number" where
  "exactCanvasHeight measuredMap meta =
     Finite (of_int \<lceil>exactRowTop measuredMap meta (maxDepth meta)
       + rowMaxHeight measuredMap meta (maxDepth meta) + gapY meta\<rceil>)"

definition onGrid :: "nat \<Rightarrow> real \<Rightarrow> bool" where
  "onGrid k x \<longleftrightarrow> of_int \<lfloor>x * 2 ^ k\<rfloor> = x * 2 ^ k"

definition heightsOnGrid :: "nat \<Rightarrow> (string \<times> number) list \<Rightarrow> bool" where
  "heightsOnGrid k measuredMap =
     list_all (\<lambda>e. case snd e of Finite h \<Rightarrow> onGrid k h | _ \<Rightarrow> True) measuredMap"

text \<open>
  \<open>exactRange k m meta\<close>: the nominal height, the gap and every finite measured height
  are whole multiples of \<open>2^-k\<close>, and the rows together are small enough for every sum
  of the re-flow to be a double.
\<close>

definition exactRange :: "nat \<Rightarrow> (string \<times> number) list \<Rightarrow> layout_meta \<Rightarrow> bool" where
  "exactRange k m meta \<longleftrightarrow>
     heightsOnGrid k m \<and> onGrid k (nodeMaxHeight meta) \<and> onGrid k (gapY meta) \<and>
     0 < nodeMaxHeight meta \<and> 0 \<le> gapY meta \<and> k \<le> 1073 \<and>
     real (maxDepth meta + 1) * (nodeMaxHeight meta + gapY meta) * 2 ^ k < 2 ^ 52"

section \<open>Reading a resolved position\<close>

definition positionOf :: "('c, 'p) state \<Rightarrow> string \<Rightarrow> position option" where
  "positionOf s ident =
     (case layoutMeta s of None \<Rightarrow> None | Some meta \<Rightarrow> Map_get (positionsById meta) ident)"

definition nodeTop :: "('c, 'p) state \<Rightarrow> string \<Rightarrow> number option" where
  "nodeTop s ident = map_option pos_top (positionOf s ident)"

definition nodeBottomY :: "('c, 'p) state \<Rightarrow> string \<Rightarrow> number option" where
  "nodeBottomY s ident = map_option pos_bottomY (positionOf s ident)"

text \<open>The state a call of \<open>relayoutWithHeights\<close> leaves: unchanged when it throws.\<close>

definition afterRelayoutWithHeights ::
  "('c, 'p) env \<Rightarrow> heights_arg \<Rightarrow> ('c, 'p) state \<Rightarrow> ('c, 'p) state" where
  "afterRelayoutWithHeights E heightsById s =
     (case relayoutWithHeights E heightsById s of Inl err \<Rightarrow> s | Inr s' \<Rightarrow> s')"

section \<open>Concrete inputs\<close>

text \<open>
  An instance of the imported helpers for running the model on concrete inputs: the
  tree layout is given as a table, strings normalise to themselves, and a connector is
  kept for every edge whose two ends have a position.
\<close>

definition tableEnv :: "(string \<times> base_position) list \<Rightarrow> real \<Rightarrow> (unit, edge) env" where
  "tableEnv layout width =
     \<lparr> normalizeString = (\<lambda>v. case v of VStr str \<Rightarrow> str | _ \<Rightarrow> []),
       computeTreeLayout = (\<lambda>ns es opts. (layout, width)),
       buildOrthogonalPaths =
         (\<lambda>es ps. filter (\<lambda>e. Map_get ps (parentId e) \<noteq> None \<and> Map_get ps (childId e) \<noteq> None) es),
       normalizeCardForDisplay = (\<lambda>n. n),
       stringToNumber = (\<lambda>str. NaN) \<rparr>"

text \<open>
  The component as its field initialisers leave it; the scale is the double that the
  literal \<open>0.7\<close> denotes.
\<close>

definition initialState :: "('c, 'p) state" where
  "initialState =
     \<lparr> recordId = VUndefined, templateDeveloperName = VUndefined, rootRecordId = VUndefined,
       hierarchy = None, errorMessage = None, isLoading = False,
       positionedNodes = [], connectorPaths = [],
       canvasWidth = Finite 0, canvasHeight = Finite 0,
       scale = fl (7 / 10), translateX = Finite 0, translateY = Finite 0,
       isPanning = False, panStartX = 0, panStartY = 0,
       panStartTranslateX = Finite 0, panStartTranslateY = Finite 0, activePointerId = None,
       pendingCenter = False, layoutMeta = None, centeredHierarchyKey = None,
       measuredHeightsById = [], nodeEntries = [], edges = [] \<rparr>"

definition initialSystem :: "('c, 'p) system" where
  "initialSystem = \<lparr> component = initialState, inFlight = [], toasts = [] \<rparr>"

text \<open>
  The four-node hierarchy of the component's test: a root, two children, and one
  grandchild under the first child, with depths 0, 1, 1 and 2.
\<close>

definition fourNodeHierarchy :: "unit hierarchy" where
  "fourNodeHierarchy =
     \<lparr> h_rootId = Some ''001'',
       h_nodes = [\<lparr> node_id = Some ''001'', node_data = () \<rparr>,
                  \<lparr> node_id = Some ''002'', node_data = () \<rparr>,
                  \<lparr> node_id = Some ''003'', node_data = () \<rparr>,
                  \<lparr> node_id = Some ''004'', node_data = () \<rparr>],
       h_edges = [\<lparr> parentId = ''001'', childId = ''002'' \<rparr>,
                  \<lparr> parentId = ''001'', childId = ''003'' \<rparr>,
                  \<lparr> parentId = ''002'', childId = ''004'' \<rparr>],
       h_capped = False, h_capMessage = None \<rparr>"

definition fourNodeLayout :: "(string \<times> base_position) list" where
  "fourNodeLayout =
     [(''001'', \<lparr> bp_left = 170, bp_centerX = 310, bp_depth = 0 \<rparr>),
      (''002'', \<lparr> bp_left = 0, bp_centerX = 140, bp_depth = 1 \<rparr>),
      (''003'', \<lparr> bp_left = 340, bp_centerX = 480, bp_depth = 1 \<rparr>),
      (''004'', \<lparr> bp_left = 0, bp_centerX = 140, bp_depth = 2 \<rparr>)]"

definition fourNodeEnv :: "(unit, edge) env" where
  "fourNodeEnv = tableEnv fourNodeLayout 620"

definition fourNodeStart :: "(unit, edge) state" where
  "fourNodeStart =
     initialState \<lparr> recordId := VStr ''001'', templateDeveloperName := VStr ''MyTemplate'',
                     hierarchy := Some fourNodeHierarchy \<rparr>"

definition fourNodeLoaded :: "(unit, edge) state" where
  "fourNodeLoaded = buildRenderModel fourNodeEnv fourNodeStart"

definition fourNodeHeights :: heights_arg where
  "fourNodeHeights =
     Object [(''001'', VNum (Finite 60)), (''002'', VNum (Finite 150)),
             (''003'', VNum (Finite 80)), (''004'', VNum (Finite 70))]"

definition fourNodeMeasured :: "(string \<times> number) list" where
  "fourNodeMeasured =
     [(''001'', Finite 60), (''002'', Finite 150), (''003'', Finite 80), (''004'', Finite 70)]"

definition fourNodeMeasuredState :: "(unit, edge) state" where
  "fourNodeMeasuredState =
     applyRowHeightLayout fourNodeEnv (fourNodeLoaded \<lparr> measuredHeightsById := fourNodeMeasured \<rparr>)"

text \<open>The identifiers and depths of an initial layout, in iteration order.\<close>

definition layoutDepths :: "(string \<times> base_position) list \<Rightarrow> (string \<times> nat) list" where
  "layoutDepths layout = map (\<lambda>e. (fst e, bp_depth (snd e))) layout"

text \<open>A hierarchy of the root alone, and a measured height that is not a whole number.\<close>

definition fractionalHeights :: heights_arg where
  "fractionalHeights = Object [(''001'', VNum (Finite (121 / 2)))]"

definition singleNodeHierarchy :: "unit hierarchy" where
  "singleNodeHierarchy =
     \<lparr> h_rootId = Some ''001'',
       h_nodes = [\<lparr> node_id = Some ''001'', node_data = () \<rparr>],
       h_edges = [], h_capped = False, h_capMessage = None \<rparr>"

definition singleNodeEnv :: "(unit, edge) env" where
  "singleNodeEnv = tableEnv [(''001'', \<lparr> bp_left = 0, bp_centerX = 140, bp_depth = 0 \<rparr>)] 280"

definition singleNodeLoaded :: "(unit, edge) state" where
  "singleNodeLoaded =
     buildRenderModel singleNodeEnv
       (initialState \<lparr> recordId := VStr ''001'', templateDeveloperName := VStr ''MyTemplate'',
                        hierarchy := Some singleNodeHierarchy \<rparr>)"

text \<open>A capped result, and a component given both a record id and a root override.\<close>

definition cappedHierarchy :: "unit hierarchy" where
  "cappedHierarchy =
     \<lparr> h_rootId = Some ''001'',
       h_nodes = [\<lparr> node_id = Some ''001'', node_data = () \<rparr>],
       h_edges = [], h_capped = True, h_capMessage = Some ''Capped at 50 nodes'' \<rparr>"

definition overrideStart :: "(unit, edge) state" where
  "overrideStart =
     initialState \<lparr> recordId := VStr ''001'', rootRecordId := VStr ''002'',
                     templateDeveloperName := VStr ''MyTemplate'' \<rparr>"

text \<open>A component given a record id and no root override.\<close>

definition ambientStart :: "(unit, edge) state" where
  "ambientStart =
     initialState \<lparr> recordId := VStr ''001'', templateDeveloperName := VStr ''MyTemplate'' \<rparr>"

text \<open>A request that carries a root id and the two caps.\<close>

definition cappedRequest :: "request \<Rightarrow> bool" where
  "cappedRequest req \<longleftrightarrow>
     req_effectiveRootRecordId req \<noteq> [] \<and> req_maxLevels req = 10 \<and> req_maxNodes req = 50"

text \<open>
  The refresh is skipped when a required input is missing; the loading flag is accounted
  for when it is set only while a fetch is in flight.  The run below loads a hierarchy
  and then loses its record id.
\<close>

definition missingInputs :: "('c, 'p) env \<Rightarrow> ('c, 'p) state \<Rightarrow> bool" where
  "missingInputs E s \<longleftrightarrow>
     normalizeString E (templateDeveloperName s) = [] \<or> effectiveRootRecordId E s = []"

definition loadingAccounted :: "('c, 'p) system \<Rightarrow> bool" where
  "loadingAccounted sys \<longleftrightarrow> (inFlight sys = [] \<longrightarrow> \<not> isLoading (component sys))"

definition clearedInputsRun :: "unit event list" where
  "clearedInputsRun =
     [SetTemplateDeveloperName (VStr ''MyTemplate''), SetRecordId (VStr ''001''),
      RefreshHierarchy, FetchResolved 0 (Some singleNodeHierarchy),
      SetRecordId VUndefined]"

text \<open>A run that loses its record id while its fetch is still in flight.\<close>

definition pendingFetchRun :: "unit event list" where
  "pendingFetchRun =
     [SetTemplateDeveloperName (VStr ''MyTemplate''), SetRecordId (VStr ''001''),
      RefreshHierarchy, SetRecordId VUndefined]"

text \<open>
  The entries \<open>relayoutWithHeights\<close> is to keep, in the words of the specification: a
  non-empty key and a value that \<open>Number\<close> converts to a positive finite number.  An
  entry is coercible when its key is empty (the value is then never converted) or
  \<open>Number\<close> returns for its value.
\<close>

definition acceptedEntry :: "('c, 'p) env \<Rightarrow> string \<times> jsval \<Rightarrow> (string \<times> number) option" where
  "acceptedEntry E entry =
     (if fst entry = [] then None
      else case Number E (snd entry) of
             Inr (Finite numeric) \<Rightarrow> if numeric > 0 then Some (fst entry, Finite numeric) else None
           | _ \<Rightarrow> None)"

definition acceptedHeights :: "('c, 'p) env \<Rightarrow> (string \<times> jsval) list \<Rightarrow> (string \<times> number) list" where
  "acceptedHeights E entries = List.map_filter (acceptedEntry E) entries"

definition coercible :: "('c, 'p) env \<Rightarrow> string \<times> jsval \<Rightarrow> bool" where
  "coercible E entry =
     (if fst entry = [] then True
      else case Number E (snd entry) of Inl err \<Rightarrow> False | Inr n \<Rightarrow> True)"

definition mixedHeights :: "(string \<times> jsval) list" where
  "mixedHeights =
     [(''001'', VNum (Finite 60)), (''002'', VStr ''tall''), (''003'', VNum (Finite (- 5))),
      (''004'', VNum PosInfinity), ('''', VNum (Finite 40)), (''005'', VNull),
      (''006'', VBool True), (''007'', VUndefined), (''008'', VNum NaN),
      (''009'', VBigInt 70), (''010'', VObject (Inr (VNum (Finite 80))))]"

text \<open>An entry whose value is a symbol, after an entry that is kept.\<close>

definition symbolHeights :: "(string \<times> jsval) list" where
  "symbolHeights = [(''001'', VNum (Finite 60)), (''002'', VSymbol ''height'')]"

text \<open>
  Viewports, the states of the single-node hierarchy after \<open>recenter\<close> and after a
  following \<open>relayoutWithHeights\<close>, and a primary-button pointer-down on the canvas.
\<close>

definition viewport800x600 :: viewport where
  "viewport800x600 = Viewport (Some \<lparr> rect_width = Some 800, rect_height = Some 600 \<rparr>)"

definition viewportUnavailable :: "viewport \<Rightarrow> bool" where
  "viewportUnavailable vp =
     (case vp of
        NoViewport \<Rightarrow> True
      | Viewport rect \<Rightarrow> viewportWidth rect \<le> 0 \<or> viewportHeight rect \<le> 0)"

definition rootHeight60 :: heights_arg where
  "rootHeight60 = Object [(''001'', VNum (Finite 60))]"

definition centeredState :: "(unit, edge) state" where
  "centeredState = recenter singleNodeEnv viewport800x600 singleNodeLoaded"

definition viewport1000x500 :: viewport where
  "viewport1000x500 = Viewport (Some \<lparr> rect_width = Some 1000, rect_height = Some 500 \<rparr>)"

definition centeredMeasuredState :: "(unit, edge) state" where
  "centeredMeasuredState = afterRelayoutWithHeights singleNodeEnv rootHeight60 centeredState"



definition primaryDown :: pointer_event where
  "primaryDown =
     \<lparr> ev_inControls = False, ev_inNode = False, ev_inCard = False, ev_button = 0,
       ev_pointerId = 1, ev_clientX = 10, ev_clientY = 10, ev_capturable = True \<rparr>"

section \<open>Properties of the rounding\<close>

text \<open>
  The binade search finds the power of two at or below its argument, a double is
  rounded to itself, and a sum of non-negative numbers is never \<open>NaN\<close>.
\<close>

lemma binade_small: "a < 2 * p \<Longrightarrow> binade n a p = p"
  by (cases n) simp_all

lemma binade_pos: "0 < p \<Longrightarrow> 0 < binade n a p"
  by (induction n arbitrary: p) simp_all

lemma binade_bracket:
  "0 < p \<Longrightarrow> p \<le> a \<Longrightarrow> a < p * 2 ^ n \<Longrightarrow>
   \<exists>j < n. binade n a p = p * 2 ^ j \<and> p * 2 ^ j \<le> a \<and> a < p * 2 ^ Suc j"
proof (induction n arbitrary: p)
  case 0
  then show ?case by simp
next
  case (Suc n)
  show ?case
  proof (cases "2 * p \<le> a")
    case True
    have "a < (2 * p) * 2 ^ n" using Suc.prems(3) by simp
    from Suc.IH [OF _ True this] Suc.prems(1) obtain j where
      j: "j < n" "binade n a (2 * p) = 2 * p * 2 ^ j" "2 * p * 2 ^ j \<le> a" "a < 2 * p * 2 ^ Suc j"
      by auto
    have "Suc j < Suc n \<and> binade (Suc n) a p = p * 2 ^ Suc j \<and> p * 2 ^ Suc j \<le> a \<and>
        a < p * 2 ^ Suc (Suc j)"
      using j True by (simp add: mult.commute mult.left_commute)
    then show ?thesis by blast
  next
    case False
    then show ?thesis using Suc.prems by (intro exI [of _ 0]) simp
  qed
qed

lemma binade_unique:
  assumes p: "0 < p" and lo: "p * 2 ^ j \<le> a" and hi: "a < p * 2 ^ Suc j" and n: "j < n"
  shows "binade n a p = p * 2 ^ j"
proof -
  have "p \<le> p * 2 ^ j" using p by simp
  then have pa: "p \<le> a" using lo by simp
  have "p * 2 ^ Suc j \<le> p * 2 ^ n"
    using p n by (simp add: Suc_leI power_increasing del: power_Suc)
  then have "a < p * 2 ^ n" using hi by simp
  from binade_bracket [OF p pa this] obtain i where
    i: "binade n a p = p * 2 ^ i" "p * 2 ^ i \<le> a" "a < p * 2 ^ Suc i" by blast
  have "p * 2 ^ i < p * 2 ^ Suc j" using i(2) hi by simp
  then have "(2::real) ^ i < 2 ^ Suc j" using p by (simp del: power_Suc)
  then have ij: "i < Suc j" by (simp only: power_strict_increasing_iff)
  have "p * 2 ^ j < p * 2 ^ Suc i" using lo i(3) by simp
  then have "(2::real) ^ j < 2 ^ Suc i" using p by (simp del: power_Suc)
  then have "j < Suc i" by (simp only: power_strict_increasing_iff)
  then show ?thesis using ij i(1) by (simp add: less_Suc_eq_le)
qed

lemma quantum_pos: "0 < quantum x"
  by (simp add: quantum_def binade_pos)

lemma roundEven_of_int [simp]: "roundEven (of_int z) = z"
  by (simp add: roundEven_def)

lemma roundEven_nonneg: "0 \<le> r \<Longrightarrow> 0 \<le> roundEven r"
  by (auto simp: roundEven_def)

lemma binade_pow_ge:
  assumes "2 ^ e \<le> a" and "a < 2 ^ Suc e" and "N + e < M"
  shows "binade M a (1 / 2 ^ N) = 2 ^ e"
proof -
  let ?p = "1 / 2 ^ N :: real"
  have e: "?p * 2 ^ (N + e) = 2 ^ e" by (simp add: power_add)
  have e': "?p * 2 ^ Suc (N + e) = 2 ^ Suc e" by (simp add: power_add)
  have "binade M a ?p = ?p * 2 ^ (N + e)"
  proof (rule binade_unique)
    show "0 < ?p" by simp
    show "?p * 2 ^ (N + e) \<le> a" using assms(1) by (simp only: e)
    show "a < ?p * 2 ^ Suc (N + e)" using assms(2) by (simp only: e')
    show "N + e < M" by (rule assms(3))
  qed
  then show ?thesis by (simp only: e)
qed

lemma binade_pow_lt:
  assumes "1 / 2 ^ e \<le> a" and "a < 2 / 2 ^ e" and "e \<le> N" and "N - e < M"
  shows "binade M a (1 / 2 ^ N) = 1 / 2 ^ e"
proof -
  let ?p = "1 / 2 ^ N :: real"
  have split: "(2::real) ^ N = 2 ^ (N - e) * 2 ^ e"
    using assms(3) by (simp add: power_add [symmetric])
  have e: "?p * 2 ^ (N - e) = 1 / 2 ^ e" by (simp add: split)
  have e': "?p * 2 ^ Suc (N - e) = 2 / 2 ^ e" by (simp add: split)
  have "binade M a ?p = ?p * 2 ^ (N - e)"
  proof (rule binade_unique)
    show "0 < ?p" by simp
    show "?p * 2 ^ (N - e) \<le> a" using assms(1) by (simp only: e)
    show "a < ?p * 2 ^ Suc (N - e)" using assms(2) by (simp only: e')
    show "N - e < M" by (rule assms(4))
  qed
  then show ?thesis by (simp only: e)
qed

lemma binade_dyadic:
  assumes m: "\<bar>m\<bar> < 2 ^ 53" and k: "k \<le> N + 52" and M: "N + 53 \<le> M"
  shows "\<exists>i. binade M \<bar>of_int m / 2 ^ k\<bar> (1 / 2 ^ N) / 2 ^ 52 = 1 / 2 ^ (k + i)"
proof -
  let ?a = "\<bar>of_int m / 2 ^ k\<bar> :: real"
  let ?p = "1 / 2 ^ N :: real"
  have ax: "?a = of_int \<bar>m\<bar> / 2 ^ k" by (simp add: abs_divide)
  have "(of_int \<bar>m\<bar> :: real) < of_int (2 ^ 53)" using m by (simp only: of_int_less_iff)
  then have m': "(of_int \<bar>m\<bar> :: real) < 2 ^ 53" by (simp only: of_int_power of_int_numeral)
  have a53: "?a < 2 ^ 53 / 2 ^ k"
    unfolding ax using m' by (simp only: divide_strict_right_mono zero_less_power zero_less_numeral)
  show ?thesis
  proof (cases "?a < 2 * ?p")
    case True
    then have b: "binade M ?a ?p = ?p" by (rule binade_small)
    have "k + (N + 52 - k) = N + 52" using k by simp
    then have eq: "(2::real) ^ N * 2 ^ 52 = 2 ^ (k + (N + 52 - k))"
      by (simp only: power_add)
    have "binade M ?a ?p / 2 ^ 52 = 1 / (2 ^ N * 2 ^ 52)"
      by (simp only: b divide_divide_eq_left)
    also have "\<dots> = 1 / 2 ^ (k + (N + 52 - k))" by (simp only: eq)
    finally show ?thesis by blast
  next
    case False
    moreover have "?p \<le> 2 * ?p" by (simp add: divide_right_mono)
    ultimately have lo: "?p \<le> ?a" by linarith
    have "(2::real) ^ 53 / 2 ^ k \<le> 2 ^ 53" by (simp add: field_simps)
    also have "(2::real) ^ 53 = ?p * 2 ^ (N + 53)" by (simp add: power_add)
    also have "\<dots> \<le> ?p * 2 ^ M"
    proof -
      have "(2::real) ^ (N + 53) \<le> 2 ^ M" using M by (intro power_increasing) simp_all
      then show ?thesis by (intro mult_left_mono) simp_all
    qed
    finally have hi: "?a < ?p * 2 ^ M" using a53 by simp
    have p: "0 < ?p" by simp
    from binade_bracket [OF p lo hi] obtain j where
      j: "j < M" "binade M ?a ?p = ?p * 2 ^ j" "?p * 2 ^ j \<le> ?a"
      by auto
    have "?p * 2 ^ j < 2 ^ 53 / 2 ^ k" using j(3) a53 by simp
    then have "(2::real) ^ j * 2 ^ k < 2 ^ 53 * 2 ^ N" by (simp add: field_simps)
    then have "(2::real) ^ (j + k) < 2 ^ (53 + N)" by (simp only: power_add)
    then have "j + k < 53 + N" by (simp only: power_strict_increasing_iff)
    then have "\<exists>i. N + 52 = j + (k + i)" by presburger
    then obtain i where i: "N + 52 = j + (k + i)" by blast
    have "binade M ?a ?p / 2 ^ 52 = ?p * 2 ^ j / 2 ^ 52" by (simp only: j(2))
    also have "\<dots> = 2 ^ j / (2 ^ N * 2 ^ 52)" by (simp only: times_divide_eq_left divide_divide_eq_left mult_1)
    also have "\<dots> = 2 ^ j / 2 ^ (j + (k + i))" by (simp only: i [symmetric] power_add)
    also have "\<dots> = 1 / 2 ^ (k + i)" by (simp add: power_add)
    finally show ?thesis by blast
  qed
qed

lemma quantum_ge1:
  assumes "2 ^ e \<le> \<bar>x\<bar>" and "\<bar>x\<bar> < 2 ^ Suc e" and "e \<le> 1023"
  shows "quantum x = 2 ^ e / 2 ^ 52"
proof -
  have "1022 + e < 2046" using assms(3) by simp
  from binade_pow_ge [OF assms(1,2) this] show ?thesis by (simp only: quantum_def)
qed

lemma quantum_lt1:
  assumes "1 / 2 ^ e \<le> \<bar>x\<bar>" and "\<bar>x\<bar> < 2 / 2 ^ e" and "e \<le> 1022"
  shows "quantum x = 1 / 2 ^ e / 2 ^ 52"
proof -
  have "1022 - e < 2046" by simp
  from binade_pow_lt [OF assms this] show ?thesis by (simp only: quantum_def)
qed

lemma quantum_dyadic:
  assumes "\<bar>m\<bar> < 2 ^ 53" and "k \<le> 1074"
  shows "\<exists>i. quantum (of_int m / 2 ^ k) = 1 / 2 ^ (k + i)"
proof -
  have "k \<le> 1022 + 52" "(1022::nat) + 53 \<le> 2046" using assms(2) by simp_all
  from binade_dyadic [OF assms(1) this] show ?thesis by (simp only: quantum_def)
qed

lemma fl_dyadic:
  assumes m: "\<bar>m\<bar> < 2 ^ 53" and k: "k \<le> 1074"
  shows "fl (of_int m / 2 ^ k) = Finite (of_int m / 2 ^ k)"
proof -
  let ?x = "of_int m / 2 ^ k :: real"
  from quantum_dyadic [OF m k] obtain i where q: "quantum ?x = 1 / 2 ^ (k + i)" by blast
  have "?x / quantum ?x = of_int (m * 2 ^ i)" by (simp add: q power_add)
  then have "roundEven (?x / quantum ?x) = m * 2 ^ i" by (simp only: roundEven_of_int)
  then have r: "of_int (roundEven (?x / quantum ?x)) * quantum ?x = ?x"
    by (simp add: q power_add)
  have "\<bar>?x\<bar> \<le> of_int \<bar>m\<bar>"
    by (simp add: abs_divide field_simps mult_le_cancel_left1)
  also have "(of_int \<bar>m\<bar> :: real) < of_int (2 ^ 53)" using m by (simp only: of_int_less_iff)
  also have "(of_int (2 ^ 53) :: real) = 2 ^ 53" by (simp only: of_int_power of_int_numeral)
  also have "(2::real) ^ 53 \<le> 2 ^ 1024" by (rule power_increasing) simp_all
  finally have "\<not> 2 ^ 1024 \<le> \<bar>?x\<bar>" by (simp only: not_le)
  then show ?thesis by (simp only: fl_def r if_False)
qed

lemma fl_of_int: "\<bar>m\<bar> < 2 ^ 53 \<Longrightarrow> fl (of_int m) = Finite (of_int m)"
  using fl_dyadic [of m 0] by simp

lemma fl_nonneg:
  assumes "0 \<le> x"
  shows "fl x = PosInfinity \<or> (\<exists>y\<ge>0. fl x = Finite y)"
proof -
  let ?y = "of_int (roundEven (x / quantum x)) * quantum x"
  have y: "0 \<le> ?y"
    using assms quantum_pos [of x] by (simp add: roundEven_nonneg)
  show ?thesis
  proof (cases "2 ^ 1024 \<le> \<bar>?y\<bar>")
    case True
    have "x \<noteq> 0"
    proof
      assume "x = 0"
      then have "roundEven (x / quantum x) = 0" using roundEven_of_int [of 0] by simp
      then have zero: "?y = 0" by simp
      from True have "2 ^ 1024 \<le> \<bar>0::real\<bar>" by (simp only: zero)
      then show False by simp
    qed
    then have "0 < x" using assms by simp
    then show ?thesis using True by (simp only: fl_def if_True) simp
  next
    case False
    then show ?thesis using y by (simp only: fl_def if_False) blast
  qed
qed

lemma fl_zero: "fl 0 = Finite 0"
  using fl_of_int [of 0] by simp

lemma fl_numeral: "(numeral n :: int) < 2 ^ 53 \<Longrightarrow> fl (numeral n) = Finite (numeral n)"
  using fl_of_int [of "numeral n"] by simp

lemma fl_numeral_half:
  "(numeral n :: int) < 2 ^ 53 \<Longrightarrow> fl (numeral n / 2) = Finite (numeral n / 2)"
  using fl_dyadic [of "numeral n" 1] by simp

lemma fl_numeral_quarter:
  "(numeral n :: int) < 2 ^ 53 \<Longrightarrow> fl (numeral n / 4) = Finite (numeral n / 4)"
  using fl_dyadic [of "numeral n" 2] by simp

lemmas fl_exact = fl_zero fl_numeral fl_numeral_half fl_numeral_quarter

lemma fl_eval:
  assumes "quantum x = q" and "roundEven (x / q) = n" and "\<bar>of_int n * q\<bar> < 2 ^ 53"
  shows "fl x = Finite (of_int n * q)"
proof -
  have "(2::real) ^ 53 \<le> 2 ^ 1024" by (rule power_increasing) simp_all
  then have "\<not> 2 ^ 1024 \<le> \<bar>of_int n * q\<bar>" using assms(3) by linarith
  then show ?thesis by (simp only: fl_def assms(1,2) if_False)
qed

lemma onGrid_iff: "onGrid k x \<longleftrightarrow> (\<exists>m::int. x * 2 ^ k = of_int m)"
  unfolding onGrid_def by (metis floor_of_int)

lemma onGrid_of_int: "onGrid k (of_int z)"
  unfolding onGrid_iff by (intro exI [of _ "z * 2 ^ k"]) simp

lemma onGrid_numeral [simp]: "onGrid k (numeral n)"
  using onGrid_of_int [of k "numeral n"] by simp

lemma onGrid_zero [simp]: "onGrid k 0"
  using onGrid_of_int [of k 0] by simp

lemma onGrid_add:
  assumes "onGrid k x" and "onGrid k y"
  shows "onGrid k (x + y)"
proof -
  from assms obtain a b :: int where "x * 2 ^ k = of_int a" "y * 2 ^ k = of_int b"
    unfolding onGrid_iff by blast
  then have "(x + y) * 2 ^ k = of_int (a + b)" by (simp add: distrib_right)
  then show ?thesis unfolding onGrid_iff by blast
qed

lemma onGrid_half:
  assumes "onGrid k x"
  shows "onGrid (Suc k) (x / 2)"
proof -
  from assms obtain a :: int where "x * 2 ^ k = of_int a" unfolding onGrid_iff by blast
  then have "x / 2 * 2 ^ Suc k = of_int a" by simp
  then show ?thesis unfolding onGrid_iff by blast
qed

lemma onGrid_Suc:
  assumes "onGrid k x"
  shows "onGrid (Suc k) x"
proof -
  from assms obtain a :: int where "x * 2 ^ k = of_int a" unfolding onGrid_iff by blast
  then have "x * 2 ^ Suc k = of_int (2 * a)" by simp
  then show ?thesis unfolding onGrid_iff by blast
qed

lemma fl_grid:
  assumes grid: "onGrid k x" and bound: "\<bar>x\<bar> * 2 ^ k < 2 ^ 53" and k: "k \<le> 1074"
  shows "fl x = Finite x"
proof -
  define m where "m = \<lfloor>x * 2 ^ k\<rfloor>"
  have m: "of_int m = x * 2 ^ k" using grid by (simp only: onGrid_def m_def)
  then have x: "x = of_int m / 2 ^ k" by simp
  have "(of_int \<bar>m\<bar> :: real) = \<bar>x * 2 ^ k\<bar>" by (simp only: of_int_abs m)
  also have "\<dots> = \<bar>x\<bar> * 2 ^ k" by (simp add: abs_mult)
  finally have "(of_int \<bar>m\<bar> :: real) < 2 ^ 53" using bound by simp
  then have "(of_int \<bar>m\<bar> :: real) < of_int (2 ^ 53)" by simp
  then have "\<bar>m\<bar> < 2 ^ 53" by (simp only: of_int_less_iff)
  from fl_dyadic [OF this k] show ?thesis by (simp only: x [symmetric])
qed

lemma nonneg_fl: "0 \<le> x \<Longrightarrow> nonneg (fl x)"
  using fl_nonneg [of x] by auto

lemma nonneg_js_add: "nonneg a \<Longrightarrow> nonneg b \<Longrightarrow> nonneg (js_add a b)"
  by (cases a; cases b) (simp_all add: nonneg_fl)

lemma or_zero_nonneg: "nonneg a \<Longrightarrow> or_zero a = a"
  by (cases a) simp_all

text \<open>The double that the literal \<open>0.7\<close> denotes.\<close>

lemma scale_double: "fl (7 / 10) = Finite (3152519739159347 / 4503599627370496)"
proof -
  have q: "quantum (7 / 10) = 1 / 2 ^ 1 / 2 ^ 52"
    by (rule quantum_lt1) simp_all
  have r: "roundEven (7 / 10 / (1 / 2 ^ 1 / 2 ^ 52)) = 6305039478318694"
    by (simp add: roundEven_def)
  have b: "\<bar>of_int 6305039478318694 * (1 / 2 ^ 1 / 2 ^ 52)\<bar> < (2::real) ^ 53"
    by simp
  from fl_eval [OF q r b] show ?thesis by simp
qed

section \<open>Lemmas on maps and work arrays\<close>

lemma set_Map_set_subset: "set (Map_set k v m) \<subseteq> insert (k, v) (set m)"
  by (induction m) auto

lemma keys_Map_set: "fst ` set (Map_set k v m) = insert k (fst ` set m)"
  by (induction m) auto

lemma distinct_Map_set:
  "distinct (map fst m) \<Longrightarrow> distinct (map fst (Map_set k v m))"
  by (induction m) (auto simp: keys_Map_set)

lemma Map_set_fresh: "k \<notin> fst ` set m \<Longrightarrow> Map_set k v m = m @ [(k, v)]"
  by (induction m) auto

lemma fold_Map_set_fresh:
  "distinct (map fst xs) \<Longrightarrow> fst ` set xs \<inter> fst ` set acc = {} \<Longrightarrow>
   fold (\<lambda>e. Map_set (fst e) (f e)) xs acc = acc @ map (\<lambda>e. (fst e, f e)) xs"
proof (induction xs arbitrary: acc)
  case Nil
  then show ?case by simp
next
  case (Cons x xs)
  have fresh: "fst x \<notin> fst ` set acc" using Cons.prems(2) by auto
  have d: "distinct (map fst xs)" using Cons.prems(1) by simp
  have disj: "fst ` set xs \<inter> fst ` set (acc @ [(fst x, f x)]) = {}"
    using Cons.prems by auto
  show ?case
    using Cons.IH [OF d disj] by (simp add: Map_set_fresh [OF fresh])
qed

lemma Map_get_map_entry:
  "distinct (map fst xs) \<Longrightarrow> e \<in> set xs \<Longrightarrow>
   Map_get (map (\<lambda>e. (fst e, f e)) xs) (fst e) = Some (f e)"
  by (induction xs) (auto simp: Map_get_def rev_image_eqI)

lemma fold_Map_set_entries:
  "p \<in> set (fold (\<lambda>e. Map_set (fst e) (f e)) xs acc) \<Longrightarrow>
   p \<in> set acc \<or> (\<exists>e \<in> set xs. p = (fst e, f e))"
proof (induction xs arbitrary: acc)
  case Nil
  then show ?case by simp
next
  case (Cons x xs)
  from Cons.IH [of "Map_set (fst x) (f x) acc"] Cons.prems
  have "p \<in> set (Map_set (fst x) (f x) acc) \<or> (\<exists>e \<in> set xs. p = (fst e, f e))"
    by simp
  then show ?case using set_Map_set_subset [of "fst x" "f x" acc] by auto
qed

lemma distinct_fold_Map_set:
  "distinct (map fst acc) \<Longrightarrow>
   distinct (map fst (fold (\<lambda>e. Map_set (fst e) (f e)) xs acc))"
  by (induction xs arbitrary: acc) (simp_all add: distinct_Map_set)

lemma nodeHeight_pos: "0 < maxH \<Longrightarrow> 0 < nodeHeight m maxH i"
  by (simp add: nodeHeight_def split: option.split number.split)

definition heightsAt ::
  "(string \<times> number) list \<Rightarrow> real \<Rightarrow> (string \<times> base_position) list \<Rightarrow> nat \<Rightarrow> real list" where
  "heightsAt m maxH xs d =
     map (\<lambda>e. nodeHeight m maxH (fst e)) (filter (\<lambda>e. bp_depth (snd e) = d) xs)"

lemma maxHeightStep_Some:
  assumes "bp_depth (snd e) < length vs"
  shows "maxHeightStep m maxH e (map Some vs) =
         map Some (vs[bp_depth (snd e) := max (vs ! bp_depth (snd e)) (nodeHeight m maxH (fst e))])"
  using assms by (simp add: maxHeightStep_def Array_set_def Array_get_def Math_max_def map_update)

lemma maxHeight_fold_Some:
  assumes "\<forall>e \<in> set xs. bp_depth (snd e) < length vs"
  shows "\<exists>ws. fold (maxHeightStep m maxH) xs (map Some vs) = map Some ws \<and>
              length ws = length vs \<and>
              (\<forall>d < length vs. ws ! d = Max (insert (vs ! d) (set (heightsAt m maxH xs d))))"
  using assms
proof (induction xs arbitrary: vs)
  case Nil
  then show ?case by (simp add: heightsAt_def)
next
  case (Cons x xs)
  let ?k = "bp_depth (snd x)"
  let ?h = "nodeHeight m maxH (fst x)"
  let ?vs = "vs[?k := max (vs ! ?k) ?h]"
  have k: "?k < length vs" using Cons.prems by simp
  have rest: "\<forall>e \<in> set xs. bp_depth (snd e) < length ?vs" using Cons.prems by simp
  from Cons.IH [OF rest] obtain ws where
    ws: "fold (maxHeightStep m maxH) xs (map Some ?vs) = map Some ws"
        "length ws = length ?vs"
        "\<forall>d < length ?vs. ws ! d = Max (insert (?vs ! d) (set (heightsAt m maxH xs d)))"
    by blast
  have cell: "ws ! d = Max (insert (vs ! d) (set (heightsAt m maxH (x # xs) d)))"
    if d: "d < length vs" for d
  proof (cases "d = ?k")
    case True
    have "ws ! d = Max (insert (max (vs ! d) ?h) (set (heightsAt m maxH xs d)))"
      using ws(3) d True by simp
    also have "\<dots> = Max (insert (vs ! d) (insert ?h (set (heightsAt m maxH xs d))))"
      by (cases "heightsAt m maxH xs d = []") (simp_all add: max.assoc)
    finally show ?thesis using True by (simp add: heightsAt_def)
  next
    case False
    then show ?thesis using ws(3) d by (simp add: heightsAt_def)
  qed
  show ?case
    using ws(1,2) cell by (simp add: maxHeightStep_Some [OF k])
qed

lemma heightsAt_rowHeights:
  "heightsAt m (nodeMaxHeight meta) (basePositionsById meta) d = rowHeights m meta d"
  by (simp add: heightsAt_def rowHeights_def)

lemma maxHeightLoop_cells:
  assumes "\<forall>e \<in> set (basePositionsById meta). bp_depth (snd e) \<le> maxDepth meta"
  shows "\<exists>ws. maxHeightLoop m meta = map Some ws \<and> length ws = maxDepth meta + 1 \<and>
              (\<forall>k \<le> maxDepth meta. ws ! k = Max (insert 0 (set (rowHeights m meta k))))"
proof -
  let ?vs = "replicate (maxDepth meta + 1) (0::real)"
  have r: "\<forall>e \<in> set (basePositionsById meta). bp_depth (snd e) < length ?vs"
    using assms by (simp add: less_Suc_eq_le)
  from maxHeight_fold_Some [OF r, of m "nodeMaxHeight meta"] obtain ws where
    ws: "fold (maxHeightStep m (nodeMaxHeight meta)) (basePositionsById meta) (map Some ?vs)
           = map Some ws"
        "length ws = length ?vs"
        "\<forall>d < length ?vs. ws ! d
           = Max (insert (?vs ! d) (set (heightsAt m (nodeMaxHeight meta) (basePositionsById meta) d)))"
    by blast
  have init: "map Some ?vs = replicate (maxDepth meta + 1) (Some 0)"
    by (simp only: map_replicate)
  have one: "maxHeightLoop m meta = map Some ws"
    using ws(1) unfolding init by (simp only: maxHeightLoop_def)
  have two: "length ws = maxDepth meta + 1"
    using ws(2) by (simp only: length_replicate)
  have three: "ws ! k = Max (insert 0 (set (rowHeights m meta k)))" if "k \<le> maxDepth meta" for k
  proof -
    have k: "k < maxDepth meta + 1" using that by simp
    then have "?vs ! k = 0" by (simp only: nth_replicate)
    moreover have "k < length ?vs" using k by (simp only: length_replicate)
    ultimately show ?thesis using ws(3) by (simp only: heightsAt_rowHeights)
  qed
  show ?thesis using one two three by blast
qed

lemma length_maxHeightByDepth:
  assumes "\<forall>e \<in> set (basePositionsById meta). bp_depth (snd e) \<le> maxDepth meta"
  shows "length (maxHeightByDepth m meta) = maxDepth meta + 1"
  using maxHeightLoop_cells [OF assms, of m] by (auto simp: maxHeightByDepth_def)

lemma maxHeightByDepth_nth:
  assumes depths: "\<forall>e \<in> set (basePositionsById meta). bp_depth (snd e) \<le> maxDepth meta"
    and pos: "0 < nodeMaxHeight meta"
    and d: "d \<le> maxDepth meta"
  shows "maxHeightByDepth m meta ! d = rowMaxHeight m meta d"
proof -
  from maxHeightLoop_cells [OF depths, of m] obtain ws where
    ws: "maxHeightLoop m meta = map Some ws" "length ws = maxDepth meta + 1"
        "\<forall>k \<le> maxDepth meta. ws ! k = Max (insert 0 (set (rowHeights m meta k)))"
    by blast
  have dl: "d < length ws" using d ws(2) by simp
  have cell: "ws ! d = Max (insert 0 (set (rowHeights m meta d)))" using ws(3) d by blast
  have allpos: "\<forall>h \<in> set (rowHeights m meta d). 0 < h"
    using pos by (auto simp: rowHeights_def nodeHeight_pos)
  have "fillFalsy (nodeMaxHeight meta) (Some (ws ! d)) = rowMaxHeight m meta d"
  proof (cases "rowHeights m meta d = []")
    case True
    then show ?thesis using cell by (simp add: fillFalsy_def rowMaxHeight_def)
  next
    case False
    then obtain h where "h \<in> set (rowHeights m meta d)" by (cases "rowHeights m meta d") auto
    then have "0 < Max (set (rowHeights m meta d))" using allpos False by (auto simp: Max_gr_iff)
    then show ?thesis using cell False by (simp add: fillFalsy_def rowMaxHeight_def max_def)
  qed
  then show ?thesis using ws(1) dl by (simp add: maxHeightByDepth_def)
qed

primrec runningTop :: "real list \<Rightarrow> real \<Rightarrow> nat \<Rightarrow> number" where
  "runningTop mh g 0 = Finite 0"
| "runningTop mh g (Suc d) = js_add (js_add (runningTop mh g d) (Finite (mh ! d))) (Finite g)"

lemma topStep_fold:
  assumes "j \<le> D"
  shows "length (fold (topStep mh g) [1 ..< j + 1] (replicate (D + 1) (Finite 0))) = D + 1 \<and>
         (\<forall>d \<le> j. fold (topStep mh g) [1 ..< j + 1] (replicate (D + 1) (Finite 0)) ! d = runningTop mh g d)"
  using assms
proof (induction j)
  case 0
  then show ?case by simp
next
  case (Suc j)
  let ?t = "fold (topStep mh g) [1 ..< j + 1] (replicate (D + 1) (Finite 0))"
  have ih: "length ?t = D + 1" "\<forall>d \<le> j. ?t ! d = runningTop mh g d"
    using Suc by simp_all
  have unfold: "fold (topStep mh g) [1 ..< Suc j + 1] (replicate (D + 1) (Finite 0)) = topStep mh g (Suc j) ?t"
    by simp
  have "topStep mh g (Suc j) ?t ! d = runningTop mh g d" if "d \<le> Suc j" for d
  proof (cases "d = Suc j")
    case True
    then show ?thesis using ih Suc.prems by (simp add: topStep_def)
  next
    case False
    then show ?thesis using ih that Suc.prems by (simp add: topStep_def)
  qed
  then show ?case unfolding unfold using ih(1) by (simp add: topStep_def)
qed

lemma runningTop_rowTop:
  assumes "\<forall>k < d. mh ! k = rowMaxHeight m meta k"
  shows "runningTop mh (gapY meta) d = rowTop m meta d"
  using assms by (induction d) simp_all

lemma topByDepth_nth:
  assumes depths: "\<forall>e \<in> set (basePositionsById meta). bp_depth (snd e) \<le> maxDepth meta"
    and pos: "0 < nodeMaxHeight meta"
    and d: "d \<le> maxDepth meta"
  shows "topByDepth m meta ! d = rowTop m meta d"
proof -
  have "topByDepth m meta ! d = runningTop (maxHeightByDepth m meta) (gapY meta) d"
    using topStep_fold [of "maxDepth meta" "maxDepth meta" "maxHeightByDepth m meta" "gapY meta"] d
    by (simp add: topByDepth_def)
  also have "\<dots> = rowTop m meta d"
    using d by (intro runningTop_rowTop) (simp add: maxHeightByDepth_nth [OF depths pos])
  finally show ?thesis .
qed

lemma length_topByDepth: "length (topByDepth m meta) = maxDepth meta + 1"
  using topStep_fold [of "maxDepth meta" "maxDepth meta" "maxHeightByDepth m meta" "gapY meta"]
  by (simp add: topByDepth_def)

section \<open>The re-flow computes the row geometry\<close>

definition layoutInvariant :: "layout_meta \<Rightarrow> bool" where
  "layoutInvariant meta \<longleftrightarrow>
     distinct (map fst (basePositionsById meta)) \<and>
     (\<forall>e \<in> set (basePositionsById meta). bp_depth (snd e) \<le> maxDepth meta) \<and>
     0 < nodeMaxHeight meta \<and> 0 \<le> gapY meta"

lemma get_or_0_nth: "i < length a \<Longrightarrow> get_or_0 a i = a ! i"
  by (simp add: get_or_0_def)

lemma rowMaxHeight_pos:
  assumes "0 < nodeMaxHeight meta"
  shows "0 < rowMaxHeight m meta d"
proof (cases "rowHeights m meta d = []")
  case True
  then show ?thesis using assms by (simp add: rowMaxHeight_def)
next
  case False
  have allpos: "\<forall>h \<in> set (rowHeights m meta d). 0 < h"
    using assms by (auto simp: rowHeights_def nodeHeight_pos)
  from False obtain h where "h \<in> set (rowHeights m meta d)"
    by (cases "rowHeights m meta d") auto
  then have "0 < Max (set (rowHeights m meta d))" using allpos False by (auto simp: Max_gr_iff)
  then show ?thesis using False by (simp add: rowMaxHeight_def)
qed

lemma nonneg_rowTop:
  assumes "0 < nodeMaxHeight meta" and "0 \<le> gapY meta"
  shows "nonneg (rowTop m meta d)"
proof (induction d)
  case 0
  then show ?case by simp
next
  case (Suc d)
  have "nonneg (Finite (rowMaxHeight m meta d))"
    using rowMaxHeight_pos [OF assms(1), of m d] by simp
  moreover have "nonneg (Finite (gapY meta))" using assms(2) by simp
  ultimately show ?case using Suc by (simp add: nonneg_js_add)
qed

lemma top_or_0_rowTop:
  assumes inv: "layoutInvariant meta" and d: "d \<le> maxDepth meta"
  shows "top_or_0 (topByDepth m meta) d = rowTop m meta d"
proof -
  have depths: "\<forall>e \<in> set (basePositionsById meta). bp_depth (snd e) \<le> maxDepth meta"
    and pos: "0 < nodeMaxHeight meta" and gap: "0 \<le> gapY meta"
    using inv by (simp_all add: layoutInvariant_def)
  have "top_or_0 (topByDepth m meta) d = or_zero (rowTop m meta d)"
    using d by (simp add: top_or_0_def length_topByDepth topByDepth_nth [OF depths pos])
  then show ?thesis by (simp add: or_zero_nonneg nonneg_rowTop [OF pos gap])
qed

lemma adjustStep_rowPosition:
  assumes inv: "layoutInvariant meta" and e: "e \<in> set (basePositionsById meta)"
  shows "\<lparr> pos_left = bp_left (snd e),
           pos_top = top_or_0 (topByDepth m meta) (bp_depth (snd e)),
           pos_depth = bp_depth (snd e),
           pos_centerX = bp_centerX (snd e),
           pos_centerY =
             js_add (top_or_0 (topByDepth m meta) (bp_depth (snd e)))
               (js_half (Finite (nodeHeight m (nodeMaxHeight meta) (fst e)))),
           pos_bottomY =
             js_add (top_or_0 (topByDepth m meta) (bp_depth (snd e)))
               (Finite (nodeHeight m (nodeMaxHeight meta) (fst e))) \<rparr>
         = rowPosition m meta (fst e) (snd e)"
proof -
  have "bp_depth (snd e) \<le> maxDepth meta" using inv e by (simp add: layoutInvariant_def)
  then show ?thesis by (simp only: rowPosition_def top_or_0_rowTop [OF inv])
qed

lemma adjustedPositionsById_rows:
  assumes inv: "layoutInvariant meta"
  shows "adjustedPositionsById m meta
         = map (\<lambda>e. (fst e, rowPosition m meta (fst e) (snd e))) (basePositionsById meta)"
proof -
  let ?f = "\<lambda>e. \<lparr> pos_left = bp_left (snd e),
           pos_top = top_or_0 (topByDepth m meta) (bp_depth (snd e)),
           pos_depth = bp_depth (snd e),
           pos_centerX = bp_centerX (snd e),
           pos_centerY =
             js_add (top_or_0 (topByDepth m meta) (bp_depth (snd e)))
               (js_half (Finite (nodeHeight m (nodeMaxHeight meta) (fst e)))),
           pos_bottomY =
             js_add (top_or_0 (topByDepth m meta) (bp_depth (snd e)))
               (Finite (nodeHeight m (nodeMaxHeight meta) (fst e))) \<rparr>"
  have step: "adjustStep m (nodeMaxHeight meta) (topByDepth m meta) = (\<lambda>e. Map_set (fst e) (?f e))"
    by (simp add: adjustStep_def fun_eq_iff Let_def)
  have dist: "distinct (map fst (basePositionsById meta))"
    using inv by (simp add: layoutInvariant_def)
  have "adjustedPositionsById m meta = map (\<lambda>e. (fst e, ?f e)) (basePositionsById meta)"
    unfolding adjustedPositionsById_def step
    using fold_Map_set_fresh [OF dist, of "[]" ?f] by simp
  also have "\<dots> = map (\<lambda>e. (fst e, rowPosition m meta (fst e) (snd e))) (basePositionsById meta)"
    by (rule map_cong, rule refl) (simp only: adjustStep_rowPosition [OF inv])
  finally show ?thesis .
qed

lemma lastRowBottom_rows:
  assumes inv: "layoutInvariant meta"
  shows "lastRowBottom m meta
         = js_add (rowTop m meta (maxDepth meta)) (Finite (rowMaxHeight m meta (maxDepth meta)))"
proof -
  have depths: "\<forall>e \<in> set (basePositionsById meta). bp_depth (snd e) \<le> maxDepth meta"
    and pos: "0 < nodeMaxHeight meta"
    using inv by (simp_all add: layoutInvariant_def)
  show ?thesis
    by (simp add: lastRowBottom_def get_or_0_nth top_or_0_rowTop [OF inv]
        length_maxHeightByDepth [OF depths] maxHeightByDepth_nth [OF depths pos])
qed

lemma fold_maxDepthStep_mono: "m0 \<le> fold maxDepthStep xs m0"
proof (induction xs arbitrary: m0)
  case Nil
  then show ?case by simp
next
  case (Cons x xs)
  have "m0 \<le> maxDepthStep x m0" by (simp add: maxDepthStep_def)
  also have "\<dots> \<le> fold maxDepthStep xs (maxDepthStep x m0)" by (rule Cons.IH)
  finally show ?case by simp
qed

lemma fold_maxDepthStep_ge:
  "e \<in> set xs \<Longrightarrow> bp_depth (snd e) \<le> fold maxDepthStep xs m0"
proof (induction xs arbitrary: m0)
  case Nil
  then show ?case by simp
next
  case (Cons x xs)
  show ?case
  proof (cases "e = x")
    case True
    have "bp_depth (snd e) \<le> maxDepthStep x m0" using True by (simp add: maxDepthStep_def)
    also have "\<dots> \<le> fold maxDepthStep xs (maxDepthStep x m0)" by (rule fold_maxDepthStep_mono)
    finally show ?thesis by simp
  next
    case False
    then have "e \<in> set xs" using Cons.prems by simp
    then show ?thesis using Cons.IH by simp
  qed
qed

lemma builtLayoutMeta_invariant: "layoutInvariant (builtLayoutMeta E s)"
proof -
  let ?layout = "fst (computeTreeLayout E (hierarchyNodes s) (hierarchyEdges s) layoutOptions)"
  let ?g = "\<lambda>e::string \<times> base_position. \<lparr> bp_left = bp_left (snd e), bp_centerX = bp_centerX (snd e),
         bp_depth = bp_depth (snd e) \<rparr>"
  have step: "basePositionStep = (\<lambda>e. Map_set (fst e) (?g e))"
    by (simp add: basePositionStep_def fun_eq_iff)
  have dist: "distinct (map fst (fold basePositionStep ?layout []))"
    unfolding step by (rule distinct_fold_Map_set) simp
  have depths: "bp_depth (snd p) \<le> fold maxDepthStep ?layout 0"
    if "p \<in> set (fold basePositionStep ?layout [])" for p
  proof -
    from that fold_Map_set_entries [of p ?g ?layout "[]"]
    obtain e where e: "e \<in> set ?layout" "p = (fst e, ?g e)" unfolding step by auto
    then show ?thesis using fold_maxDepthStep_ge [OF e(1), of 0] by simp
  qed
  show ?thesis
    using dist depths
    by (simp add: layoutInvariant_def builtLayoutMeta_def Let_def DEFAULT_NODE_HEIGHT_def
        GAP_Y_def)
qed

lemma applyRowHeightLayout_layoutMeta:
  "layoutMeta s = Some meta \<Longrightarrow>
   layoutMeta (applyRowHeightLayout E s)
     = Some (meta \<lparr> positionsById := adjustedPositionsById (measuredHeightsById s) meta \<rparr>)"
  by (simp add: applyRowHeightLayout_def Let_def)

lemma applyRowHeightLayout_canvasHeight:
  "layoutMeta s = Some meta \<Longrightarrow>
   canvasHeight (applyRowHeightLayout E s)
     = Math_ceil (js_add (lastRowBottom (measuredHeightsById s) meta) (Finite (gapY meta)))"
  by (simp add: applyRowHeightLayout_def Let_def)

lemma buildRenderModel_layoutMeta:
  "layoutMeta (buildRenderModel E s)
     = Some ((builtLayoutMeta E s) \<lparr> positionsById := adjustedPositionsById [] (builtLayoutMeta E s) \<rparr>)"
  by (simp add: buildRenderModel_def applyRowHeightLayout_def Let_def)

lemma layoutInvariant_positions [simp]:
  "layoutInvariant (meta \<lparr> positionsById := p \<rparr>) = layoutInvariant meta"
  by (simp add: layoutInvariant_def)

lemma rowHeights_positions [simp]:
  "rowHeights m (meta \<lparr> positionsById := p \<rparr>) = rowHeights m meta"
  by (simp add: rowHeights_def fun_eq_iff)

lemma rowMaxHeight_positions [simp]:
  "rowMaxHeight m (meta \<lparr> positionsById := p \<rparr>) = rowMaxHeight m meta"
  by (simp add: rowMaxHeight_def fun_eq_iff)

lemma rowTop_positions [simp]:
  "rowTop m (meta \<lparr> positionsById := p \<rparr>) d = rowTop m meta d"
  by (induction d) simp_all

lemma rowPosition_positions [simp]:
  "rowPosition m (meta \<lparr> positionsById := p \<rparr>) = rowPosition m meta"
  by (simp add: rowPosition_def fun_eq_iff)

lemma rowCanvasHeight_positions [simp]:
  "rowCanvasHeight m (meta \<lparr> positionsById := p \<rparr>) = rowCanvasHeight m meta"
  by (simp add: rowCanvasHeight_def)

lemma reflow_rows:
  assumes meta: "layoutMeta s = Some meta" and inv: "layoutInvariant meta"
  shows "\<exists>meta'. layoutMeta (applyRowHeightLayout E s) = Some meta' \<and>
           positionsById meta'
             = map (\<lambda>e. (fst e, rowPosition (measuredHeightsById s) meta (fst e) (snd e)))
                 (basePositionsById meta) \<and>
           (\<forall>e \<in> set (basePositionsById meta).
              Map_get (positionsById meta') (fst e)
                = Some (rowPosition (measuredHeightsById s) meta (fst e) (snd e))) \<and>
           canvasHeight (applyRowHeightLayout E s)
             = rowCanvasHeight (measuredHeightsById s) meta"
proof -
  let ?m = "measuredHeightsById s"
  let ?meta' = "meta \<lparr> positionsById := adjustedPositionsById ?m meta \<rparr>"
  have dist: "distinct (map fst (basePositionsById meta))"
    using inv by (simp add: layoutInvariant_def)
  have a: "layoutMeta (applyRowHeightLayout E s) = Some ?meta'"
    by (rule applyRowHeightLayout_layoutMeta [OF meta])
  have b: "positionsById ?meta'
      = map (\<lambda>e. (fst e, rowPosition ?m meta (fst e) (snd e))) (basePositionsById meta)"
    by (simp add: adjustedPositionsById_rows [OF inv])
  have c: "\<forall>e \<in> set (basePositionsById meta).
      Map_get (positionsById ?meta') (fst e) = Some (rowPosition ?m meta (fst e) (snd e))"
    unfolding b
    using Map_get_map_entry [OF dist, where f = "\<lambda>e. rowPosition ?m meta (fst e) (snd e)"]
    by simp
  have d: "canvasHeight (applyRowHeightLayout E s) = rowCanvasHeight ?m meta"
    by (simp add: applyRowHeightLayout_canvasHeight [OF meta] lastRowBottom_rows [OF inv]
        rowCanvasHeight_def)
  show ?thesis using a b c d by blast
qed

section \<open>When no sum is rounded\<close>

lemma fl_in_range:
  assumes "onGrid j x" and "0 \<le> x" and "x * 2 ^ j < 2 ^ 53" and "j \<le> 1074"
  shows "fl x = Finite x"
  using fl_grid [OF assms(1) _ assms(4)] assms(2,3) by simp

lemma nodeHeight_le: "nodeHeight m maxH i \<le> maxH"
  by (simp add: nodeHeight_def split: option.split number.split)

lemma heightsOnGrid_entry:
  assumes "heightsOnGrid k m" and "Map_get m i = Some (Finite h)"
  shows "onGrid k h"
proof -
  have "(i, Finite h) \<in> set m" using assms(2) by (simp add: Map_get_def map_of_SomeD)
  then show ?thesis using assms(1) by (auto simp: heightsOnGrid_def list_all_iff)
qed

lemma nodeHeight_onGrid:
  assumes "heightsOnGrid k m" and "onGrid k maxH"
  shows "onGrid k (nodeHeight m maxH i)"
proof (cases "Map_get m i")
  case None
  then show ?thesis using assms(2) by (simp add: nodeHeight_def)
next
  case (Some n)
  show ?thesis
  proof (cases n)
    case (Finite h)
    have "onGrid k h" using heightsOnGrid_entry [OF assms(1)] Some Finite by simp
    then show ?thesis using assms(2) Some Finite by (simp add: nodeHeight_def min_def)
  qed (simp_all add: nodeHeight_def Some assms(2))
qed

lemma rowMaxHeight_cases:
  "rowMaxHeight m meta d = nodeMaxHeight meta \<or>
   (\<exists>i. rowMaxHeight m meta d = nodeHeight m (nodeMaxHeight meta) i)"
proof (cases "rowHeights m meta d = []")
  case True
  then show ?thesis by (simp add: rowMaxHeight_def)
next
  case False
  then have "Max (set (rowHeights m meta d)) \<in> set (rowHeights m meta d)"
    by (intro Max_in) simp_all
  then show ?thesis using False by (auto simp: rowMaxHeight_def rowHeights_def)
qed

lemma rowMaxHeight_le: "rowMaxHeight m meta d \<le> nodeMaxHeight meta"
  using rowMaxHeight_cases [of m meta d] nodeHeight_le [of m "nodeMaxHeight meta"] by auto

lemma rowMaxHeight_onGrid:
  assumes "heightsOnGrid k m" and "onGrid k (nodeMaxHeight meta)"
  shows "onGrid k (rowMaxHeight m meta d)"
  using rowMaxHeight_cases [of m meta d] nodeHeight_onGrid [OF assms] assms(2) by auto

lemma exactRowTop_nonneg:
  assumes "0 < nodeMaxHeight meta" and "0 \<le> gapY meta"
  shows "0 \<le> exactRowTop m meta d"
proof (induction d)
  case 0
  then show ?case by simp
next
  case (Suc d)
  then show ?case using rowMaxHeight_pos [OF assms(1), of m d] assms(2) by simp
qed

lemma exactRowTop_le:
  assumes "0 \<le> gapY meta"
  shows "exactRowTop m meta d \<le> real d * (nodeMaxHeight meta + gapY meta)"
proof (induction d)
  case 0
  then show ?case by simp
next
  case (Suc d)
  then show ?case using rowMaxHeight_le [of m meta d] by (simp add: distrib_right)
qed

lemma exactRowTop_onGrid:
  assumes "heightsOnGrid k m" and "onGrid k (nodeMaxHeight meta)" and "onGrid k (gapY meta)"
  shows "onGrid k (exactRowTop m meta d)"
proof (induction d)
  case 0
  then show ?case by simp
next
  case (Suc d)
  then show ?case using rowMaxHeight_onGrid [OF assms(1,2), of d] assms(3)
    by (simp add: onGrid_add)
qed

lemma exactRowTop_bound:
  assumes r: "exactRange k m meta" and d: "d \<le> maxDepth meta"
  shows "(exactRowTop m meta d + (nodeMaxHeight meta + gapY meta)) * 2 ^ k < 2 ^ 52"
proof -
  let ?c = "nodeMaxHeight meta + gapY meta"
  have c: "0 \<le> ?c" and g: "0 \<le> gapY meta" using r by (simp_all add: exactRange_def)
  have "exactRowTop m meta d \<le> real d * ?c" by (rule exactRowTop_le [OF g])
  also have "\<dots> \<le> real (maxDepth meta) * ?c" using d c by (intro mult_right_mono) simp_all
  finally have "exactRowTop m meta d + ?c \<le> real (maxDepth meta + 1) * ?c"
    by (simp add: distrib_right)
  then have le: "(exactRowTop m meta d + ?c) * 2 ^ k \<le> real (maxDepth meta + 1) * ?c * 2 ^ k"
    by (intro mult_right_mono) simp_all
  have lt: "real (maxDepth meta + 1) * ?c * 2 ^ k < 2 ^ 52"
    using r unfolding exactRange_def by blast
  from le lt show ?thesis by (rule le_less_trans)
qed

lemma exact_sum:
  assumes r: "exactRange k m meta" and d: "d \<le> maxDepth meta"
    and x: "onGrid k x" "0 \<le> x" "x \<le> nodeMaxHeight meta + gapY meta"
  shows "fl (exactRowTop m meta d + x) = Finite (exactRowTop m meta d + x)"
proof (rule fl_in_range)
  let ?t = "exactRowTop m meta d"
  show "onGrid k (?t + x)"
    using r x(1) by (intro onGrid_add exactRowTop_onGrid) (simp_all add: exactRange_def)
  show "0 \<le> ?t + x"
    using exactRowTop_nonneg [of meta m d] r x(2) by (simp add: exactRange_def)
  have "(?t + x) * 2 ^ k \<le> (?t + (nodeMaxHeight meta + gapY meta)) * 2 ^ k"
    using x(3) by (intro mult_right_mono) simp_all
  also have "\<dots> < 2 ^ 52" by (rule exactRowTop_bound [OF r d])
  also have "(2::real) ^ 52 \<le> 2 ^ 53" by (rule power_increasing) simp_all
  finally show "(?t + x) * 2 ^ k < 2 ^ 53" .
  show "k \<le> 1074" using r by (simp add: exactRange_def)
qed

lemma rowTop_exact:
  assumes r: "exactRange k m meta" and d: "d \<le> maxDepth meta"
  shows "rowTop m meta d = Finite (exactRowTop m meta d)"
  using d
proof (induction d)
  case 0
  then show ?case by simp
next
  case (Suc d)
  let ?t = "exactRowTop m meta d"
  let ?h = "rowMaxHeight m meta d"
  have d: "d \<le> maxDepth meta" and sd: "Suc d \<le> maxDepth meta" using Suc.prems by simp_all
  have pos: "0 < nodeMaxHeight meta" and g: "0 \<le> gapY meta"
    and grid: "heightsOnGrid k m" "onGrid k (nodeMaxHeight meta)" "onGrid k (gapY meta)"
    using r by (simp_all add: exactRange_def)
  have ih: "rowTop m meta d = Finite ?t" using Suc.IH d by simp
  have one: "fl (?t + ?h) = Finite (?t + ?h)"
    using rowMaxHeight_pos [OF pos, of m d] rowMaxHeight_le [of m meta d] g
    by (intro exact_sum [OF r d] rowMaxHeight_onGrid grid) simp_all
  have "fl (?t + (?h + gapY meta)) = Finite (?t + (?h + gapY meta))"
    using rowMaxHeight_pos [OF pos, of m d] rowMaxHeight_le [of m meta d] g
    by (intro exact_sum [OF r d] onGrid_add rowMaxHeight_onGrid grid) simp_all
  then have two: "fl (?t + ?h + gapY meta) = Finite (?t + ?h + gapY meta)"
    by (simp only: add.assoc)
  show ?case by (simp add: ih one two)
qed

lemma rowPosition_exact:
  assumes r: "exactRange k m meta" and d: "bp_depth bp \<le> maxDepth meta"
  shows "rowPosition m meta i bp = exactRowPosition m meta i bp"
proof -
  let ?t = "exactRowTop m meta (bp_depth bp)"
  let ?h = "nodeHeight m (nodeMaxHeight meta) i"
  have pos: "0 < nodeMaxHeight meta" and g: "0 \<le> gapY meta" and k: "k \<le> 1073"
    and grid: "heightsOnGrid k m" "onGrid k (nodeMaxHeight meta)" "onGrid k (gapY meta)"
    using r by (simp_all add: exactRange_def)
  have h: "onGrid k ?h" "0 < ?h" "?h \<le> nodeMaxHeight meta"
    by (simp_all add: nodeHeight_onGrid [OF grid(1,2)] nodeHeight_pos [OF pos] nodeHeight_le)
  have top: "rowTop m meta (bp_depth bp) = Finite ?t" by (rule rowTop_exact [OF r d])
  have bottom: "fl (?t + ?h) = Finite (?t + ?h)"
    using h g by (intro exact_sum [OF r d]) simp_all
  have t0: "0 \<le> ?t" by (rule exactRowTop_nonneg [OF pos g])
  have bound: "(?t + ?h) * 2 ^ k < 2 ^ 52"
  proof -
    have "(?t + ?h) * 2 ^ k \<le> (?t + (nodeMaxHeight meta + gapY meta)) * 2 ^ k"
      using h(3) g by (intro mult_right_mono) simp_all
    also have "\<dots> < 2 ^ 52" by (rule exactRowTop_bound [OF r d])
    finally show ?thesis .
  qed
  have half: "fl (?h / 2) = Finite (?h / 2)"
  proof (rule fl_in_range)
    show "onGrid (Suc k) (?h / 2)" by (rule onGrid_half [OF h(1)])
    show "0 \<le> ?h / 2" using h(2) by simp
    have "?h * 2 ^ k \<le> (?t + ?h) * 2 ^ k" using t0 by (intro mult_right_mono) simp_all
    from this bound have "?h * 2 ^ k < 2 ^ 52" by (rule le_less_trans)
    also have "(2::real) ^ 52 \<le> 2 ^ 53" by (rule power_increasing) simp_all
    finally show "?h / 2 * 2 ^ Suc k < 2 ^ 53" by simp
    show "Suc k \<le> 1074" using k by simp
  qed
  have center: "fl (?t + ?h / 2) = Finite (?t + ?h / 2)"
  proof (rule fl_in_range)
    show "onGrid (Suc k) (?t + ?h / 2)"
      by (intro onGrid_add onGrid_Suc onGrid_half exactRowTop_onGrid grid h(1))
    show "0 \<le> ?t + ?h / 2" using t0 h(2) by simp
    have "(?t + ?h / 2) * 2 ^ Suc k \<le> 2 * ((?t + ?h) * 2 ^ k)"
      using h(2) by (simp add: distrib_right)
    also have "\<dots> < 2 * 2 ^ 52" using bound by (simp add: mult.commute)
    finally show "(?t + ?h / 2) * 2 ^ Suc k < 2 ^ 53" by simp
    show "Suc k \<le> 1074" using k by simp
  qed
  show ?thesis
    by (simp add: rowPosition_def exactRowPosition_def top bottom half center)
qed

lemma rowCanvasHeight_exact:
  assumes r: "exactRange k m meta"
  shows "rowCanvasHeight m meta = exactCanvasHeight m meta"
proof -
  let ?D = "maxDepth meta"
  let ?t = "exactRowTop m meta ?D"
  let ?h = "rowMaxHeight m meta ?D"
  have pos: "0 < nodeMaxHeight meta" and g: "0 \<le> gapY meta"
    and grid: "heightsOnGrid k m" "onGrid k (nodeMaxHeight meta)" "onGrid k (gapY meta)"
    using r by (simp_all add: exactRange_def)
  have h: "onGrid k ?h" "0 < ?h" "?h \<le> nodeMaxHeight meta"
    by (simp_all add: rowMaxHeight_onGrid [OF grid(1,2)] rowMaxHeight_pos [OF pos]
        rowMaxHeight_le)
  have top: "rowTop m meta ?D = Finite ?t" by (rule rowTop_exact [OF r order_refl])
  have one: "fl (?t + ?h) = Finite (?t + ?h)"
    using h g by (intro exact_sum [OF r order_refl]) simp_all
  have "fl (?t + (?h + gapY meta)) = Finite (?t + (?h + gapY meta))"
    using h g grid(3) by (intro exact_sum [OF r order_refl] onGrid_add) simp_all
  then have two: "fl (?t + ?h + gapY meta) = Finite (?t + ?h + gapY meta)"
    by (simp only: add.assoc)
  show ?thesis
    by (simp add: rowCanvasHeight_def exactCanvasHeight_def top one two)
qed

section \<open>Evaluation of the model\<close>

lemmas reflow_defs =
  buildRenderModel_def builtLayoutMeta_def
  applyRowHeightLayout_def layoutOptions_def
  basePositionStep_def maxDepthStep_def adjustedPositionsById_def adjustStep_def
  topByDepth_def topStep_def maxHeightByDepth_def maxHeightLoop_def maxHeightStep_def
  fillFalsy_def Array_get_def Array_set_def Math_max_def get_or_0_def nodeHeight_def
  Map_get_def lastRowBottom_def top_or_0_def fl_exact
  DEFAULT_NODE_WIDTH_def DEFAULT_NODE_HEIGHT_def GAP_X_def GAP_Y_def
  nodeTop_def positionOf_def nodeBottomY_def afterRelayoutWithHeights_def relayoutWithHeights_def

lemmas scenario_defs =
  fourNodeLoaded_def fourNodeStart_def fourNodeEnv_def tableEnv_def fourNodeLayout_def
  fourNodeHierarchy_def initialState_def hierarchyNodes_def hierarchyEdges_def
  nodeEntry_def positionNode_def fourNodeHeights_def
  singleNodeLoaded_def singleNodeEnv_def singleNodeHierarchy_def

section \<open>The four-node scenario\<close>

lemma four_rows_shape:
  assumes "layoutDepths layout = [(''001'', 0), (''002'', 1), (''003'', 1), (''004'', 2)]"
  shows "\<exists>b1 b2 b3 b4. layout = [(''001'', b1), (''002'', b2), (''003'', b3), (''004'', b4)] \<and>
           bp_depth b1 = 0 \<and> bp_depth b2 = 1 \<and> bp_depth b3 = 1 \<and> bp_depth b4 = 2"
  using assms unfolding layoutDepths_def
  by (auto simp: map_eq_Cons_conv)

lemma four_rows_nominal:
  assumes "layoutDepths (fst (computeTreeLayout E (hierarchyNodes s0) (hierarchyEdges s0) layoutOptions))
             = [(''001'', 0), (''002'', 1), (''003'', 1), (''004'', 2)]"
  shows "nodeTop (buildRenderModel E s0) ''004'' = Some (Finite 500)"
proof -
  from four_rows_shape [OF assms] obtain b1 b2 b3 b4 where
    "fst (computeTreeLayout E (hierarchyNodes s0) (hierarchyEdges s0) layoutOptions)
       = [(''001'', b1), (''002'', b2), (''003'', b3), (''004'', b4)]"
    "bp_depth b1 = 0" "bp_depth b2 = 1" "bp_depth b3 = 1" "bp_depth b4 = 2"
    by blast
  then show ?thesis
    by (simp add: reflow_defs Let_def)
qed

lemma four_rows_measured:
  assumes "layoutDepths (fst (computeTreeLayout E (hierarchyNodes s0) (hierarchyEdges s0) layoutOptions))
             = [(''001'', 0), (''002'', 1), (''003'', 1), (''004'', 2)]"
  shows "nodeTop (afterRelayoutWithHeights E fourNodeHeights (buildRenderModel E s0)) ''004''
           = Some (Finite 350)"
proof -
  from four_rows_shape [OF assms] obtain b1 b2 b3 b4 where
    "fst (computeTreeLayout E (hierarchyNodes s0) (hierarchyEdges s0) layoutOptions)
       = [(''001'', b1), (''002'', b2), (''003'', b3), (''004'', b4)]"
    "bp_depth b1 = 0" "bp_depth b2 = 1" "bp_depth b3 = 1" "bp_depth b4 = 2"
    by blast
  then show ?thesis
    by (simp add: reflow_defs fourNodeHeights_def Let_def)
qed

lemma fourNode_meta:
  "layoutMeta (buildRenderModel fourNodeEnv fourNodeStart) = Some (the (layoutMeta fourNodeLoaded))"
  by (simp add: fourNodeLoaded_def buildRenderModel_layoutMeta)

lemma fourNode_depths:
  "layoutDepths (fst (computeTreeLayout fourNodeEnv (hierarchyNodes fourNodeStart)
      (hierarchyEdges fourNodeStart) layoutOptions))
   = [(''001'', 0), (''002'', 1), (''003'', 1), (''004'', 2)]"
  by (simp add: layoutDepths_def fourNodeEnv_def tableEnv_def fourNodeLayout_def)

lemma single_normalize:
  "normalizeString singleNodeEnv (VStr str) = str"
  "normalizeString singleNodeEnv VUndefined = []"
  by (simp_all add: singleNodeEnv_def tableEnv_def)

section \<open>Row geometry of the re-flow\<close>

lemma built_constants:
  assumes "layoutMeta (buildRenderModel E s0) = Some meta"
  shows "nodeMaxHeight meta = 180" and "gapY meta = 70"
  using assms
  by (auto simp: buildRenderModel_layoutMeta builtLayoutMeta_def Let_def
      DEFAULT_NODE_HEIGHT_def GAP_Y_def)

lemma built_exactRange:
  assumes meta: "layoutMeta (buildRenderModel E s0) = Some meta"
    and grid: "heightsOnGrid k m"
    and bound: "real (maxDepth meta + 1) * 250 * 2 ^ k < 2 ^ 52"
  shows "exactRange k m meta"
proof -
  have "1 * (2::real) ^ k \<le> (real (maxDepth meta + 1) * 250) * 2 ^ k"
    by (intro mult_right_mono) simp_all
  also have "\<dots> < 2 ^ 52" by (rule bound)
  finally have "(2::real) ^ k < 2 ^ 52" by simp
  then have "k < 52" by (simp only: power_strict_increasing_iff)
  then show ?thesis
    using grid bound by (simp add: exactRange_def built_constants [OF meta])
qed

text \<open>
  A measured height of \<open>2^-70\<close> is below the spacing of the doubles near 70: the code
  computes the canvas height \<open>Math.ceil(70) = 70\<close>, where the unrounded sum
  \<open>70 + 2^-70\<close> has the ceiling 71.
\<close>

lemma rounded_sum: "fl (1 / 2 ^ 70 + 70) = Finite 70"
proof -
  have q: "quantum (1 / 2 ^ 70 + 70) = 2 ^ 6 / 2 ^ 52"
    by (rule quantum_ge1) simp_all
  have r: "roundEven ((1 / 2 ^ 70 + 70) / (2 ^ 6 / 2 ^ 52)) = 4925812092436480"
    by (simp add: roundEven_def)
  have b: "\<bar>of_int 4925812092436480 * (2 ^ 6 / 2 ^ 52)\<bar> < (2::real) ^ 53"
    by simp
  from fl_eval [OF q r b] show ?thesis by simp
qed

lemma tiny_double: "fl (1 / 2 ^ 70) = Finite (1 / 2 ^ 70)"
  using fl_dyadic [of 1 70] by simp

lemma canvas_height_rounded:
  "canvasHeight (afterRelayoutWithHeights singleNodeEnv
      (Object [(''001'', VNum (Finite (1 / 2 ^ 70)))]) singleNodeLoaded) = Finite 70 \<and>
   exactCanvasHeight [(''001'', Finite (1 / 2 ^ 70))] (the (layoutMeta singleNodeLoaded))
     = Finite 71"
proof -
  have t: "fl (1 / 1180591620717411303424) = Finite (1 / 1180591620717411303424)"
    using tiny_double by simp
  have s: "fl (1 / 1180591620717411303424 + 70) = Finite 70"
    using rounded_sum by simp
  have s': "fl (82641413450218791239681 / 1180591620717411303424) = Finite 70"
    using rounded_sum by simp
  show ?thesis
    by (simp add: scenario_defs reflow_defs Let_def exactCanvasHeight_def rowMaxHeight_def
        rowHeights_def t s s')
qed

text \<open>
  C1 (as amended).  For every loaded hierarchy and every measured-height map, the
  re-flow gives each node of the base layout exactly the position \<open>rowPosition\<close>: its
  row top is the running sum, over the shallower rows, of the row's maximum effective
  height plus \<open>gapY\<close>; the effective height is \<open>min(measured, nodeMaxHeight)\<close> for a
  positive finite measurement and \<open>nodeMaxHeight\<close> otherwise; \<open>centerY\<close> is the top plus
  half the effective height and \<open>bottomY\<close> the top plus the effective height.  The canvas
  height is the ceiling (\<open>Math.ceil\<close>) of the last row's bottom plus \<open>gapY\<close>.  These
  sums are sums of doubles, each addition rounded to the nearest double.  When every
  finite measured height is a whole multiple of \<open>2^-k\<close> and
  \<open>(maxDepth + 1) * 250 * 2^k < 2^52\<close>, no sum is rounded, and the positions and the
  canvas height are those of exact real arithmetic.  In the four-node scenario (depths
  0, 1, 1, 2) the grandchild is at top 500 with no measurement and at top 350 with the
  heights 60, 150, 80, 70.
\<close>

theorem reflow_row_geometry:
  "(layoutMeta (buildRenderModel E s0) = Some meta \<longrightarrow>
      (\<exists>meta'.
         layoutMeta (applyRowHeightLayout E ((buildRenderModel E s0) \<lparr> measuredHeightsById := measuredMap \<rparr>))
           = Some meta' \<and>
         map fst (positionsById meta') = map fst (basePositionsById meta) \<and>
         (\<forall>e \<in> set (basePositionsById meta).
            Map_get (positionsById meta') (fst e)
              = Some (rowPosition measuredMap meta (fst e) (snd e)))) \<and>
      canvasHeight (applyRowHeightLayout E ((buildRenderModel E s0) \<lparr> measuredHeightsById := measuredMap \<rparr>))
        = rowCanvasHeight measuredMap meta \<and>
      (heightsOnGrid k measuredMap \<and> real (maxDepth meta + 1) * 250 * 2 ^ k < 2 ^ 52 \<longrightarrow>
         (\<forall>e \<in> set (basePositionsById meta).
            rowPosition measuredMap meta (fst e) (snd e)
              = exactRowPosition measuredMap meta (fst e) (snd e)) \<and>
         rowCanvasHeight measuredMap meta = exactCanvasHeight measuredMap meta)) \<and>
   (layoutDepths (fst (computeTreeLayout E (hierarchyNodes s0) (hierarchyEdges s0) layoutOptions))
      = [(''001'', 0), (''002'', 1), (''003'', 1), (''004'', 2)] \<longrightarrow>
    nodeTop (buildRenderModel E s0) ''004'' = Some (Finite 500) \<and>
    nodeTop (afterRelayoutWithHeights E fourNodeHeights (buildRenderModel E s0)) ''004''
      = Some (Finite 350))"
proof (intro conjI impI)
  let ?s = "(buildRenderModel E s0) \<lparr> measuredHeightsById := measuredMap \<rparr>"
  assume meta: "layoutMeta (buildRenderModel E s0) = Some meta"
  then have inv: "layoutInvariant meta"
    using builtLayoutMeta_invariant [of E s0] by (auto simp: buildRenderModel_layoutMeta)
  have m: "layoutMeta ?s = Some meta" using meta by simp
  from reflow_rows [OF m inv, of E] obtain meta' where
    r: "layoutMeta (applyRowHeightLayout E ?s) = Some meta'"
       "positionsById meta'
          = map (\<lambda>e. (fst e, rowPosition measuredMap meta (fst e) (snd e))) (basePositionsById meta)"
       "\<forall>e \<in> set (basePositionsById meta).
          Map_get (positionsById meta') (fst e) = Some (rowPosition measuredMap meta (fst e) (snd e))"
       "canvasHeight (applyRowHeightLayout E ?s) = rowCanvasHeight measuredMap meta"
    by auto
  have keys: "map fst (positionsById meta') = map fst (basePositionsById meta)"
    unfolding r(2) by (simp add: comp_def)
  show "\<exists>meta'. layoutMeta (applyRowHeightLayout E ?s) = Some meta' \<and>
          map fst (positionsById meta') = map fst (basePositionsById meta) \<and>
          (\<forall>e \<in> set (basePositionsById meta).
             Map_get (positionsById meta') (fst e)
               = Some (rowPosition measuredMap meta (fst e) (snd e)))"
    using r(1,3) keys by blast
  show "canvasHeight (applyRowHeightLayout E ?s) = rowCanvasHeight measuredMap meta"
    by (rule r(4))
  assume "heightsOnGrid k measuredMap \<and> real (maxDepth meta + 1) * 250 * 2 ^ k < 2 ^ 52"
  then have range: "exactRange k measuredMap meta"
    using built_exactRange [OF meta] by blast
  show "\<forall>e \<in> set (basePositionsById meta).
          rowPosition measuredMap meta (fst e) (snd e)
            = exactRowPosition measuredMap meta (fst e) (snd e)"
  proof
    fix e assume "e \<in> set (basePositionsById meta)"
    then have "bp_depth (snd e) \<le> maxDepth meta" using inv by (simp add: layoutInvariant_def)
    then show "rowPosition measuredMap meta (fst e) (snd e)
        = exactRowPosition measuredMap meta (fst e) (snd e)"
      by (rule rowPosition_exact [OF range])
  qed
  show "rowCanvasHeight measuredMap meta = exactCanvasHeight measuredMap meta"
    by (rule rowCanvasHeight_exact [OF range])
next
  assume "layoutDepths (fst (computeTreeLayout E (hierarchyNodes s0) (hierarchyEdges s0) layoutOptions))
      = [(''001'', 0), (''002'', 1), (''003'', 1), (''004'', 2)]"
  then show "nodeTop (buildRenderModel E s0) ''004'' = Some (Finite 500)"
    and "nodeTop (afterRelayoutWithHeights E fourNodeHeights (buildRenderModel E s0)) ''004''
      = Some (Finite 350)"
    by (rule four_rows_nominal, rule four_rows_measured)
qed

theorem reflow_row_geometry_witness:
  "positionOf (applyRowHeightLayout fourNodeEnv
       ((buildRenderModel fourNodeEnv fourNodeStart) \<lparr> measuredHeightsById := fourNodeMeasured \<rparr>)) ''004''
     = Some \<lparr> pos_left = 0, pos_top = Finite 350, pos_depth = 2, pos_centerX = 140,
              pos_centerY = Finite 385, pos_bottomY = Finite 420 \<rparr> \<and>
   canvasHeight (applyRowHeightLayout fourNodeEnv
       ((buildRenderModel fourNodeEnv fourNodeStart) \<lparr> measuredHeightsById := fourNodeMeasured \<rparr>))
     = Finite 490 \<and>
   heightsOnGrid 0 fourNodeMeasured \<and>
   nodeTop (buildRenderModel fourNodeEnv fourNodeStart) ''004'' = Some (Finite 500) \<and>
   nodeTop (afterRelayoutWithHeights fourNodeEnv fourNodeHeights
       (buildRenderModel fourNodeEnv fourNodeStart)) ''004'' = Some (Finite 350)"
proof -
  let ?meta = "the (layoutMeta fourNodeLoaded)"
  let ?s = "applyRowHeightLayout fourNodeEnv
       ((buildRenderModel fourNodeEnv fourNodeStart) \<lparr> measuredHeightsById := fourNodeMeasured \<rparr>)"
  note geo = reflow_row_geometry [of fourNodeEnv fourNodeStart ?meta fourNodeMeasured 0]
  have base: "basePositionsById ?meta = fourNodeLayout" "maxDepth ?meta = 2"
    "nodeMaxHeight ?meta = 180" "gapY ?meta = 70"
    by (simp_all add: scenario_defs reflow_defs Let_def)
  have grid: "heightsOnGrid 0 fourNodeMeasured"
    by (simp add: heightsOnGrid_def fourNodeMeasured_def)
  have small: "real (maxDepth ?meta + 1) * 250 * 2 ^ 0 < 2 ^ 52"
    by (simp add: base)
  from geo fourNode_meta grid small obtain meta' where
    m: "layoutMeta ?s = Some meta'"
       "\<forall>e \<in> set (basePositionsById ?meta).
          Map_get (positionsById meta') (fst e)
            = Some (rowPosition fourNodeMeasured ?meta (fst e) (snd e))"
    and c: "canvasHeight ?s = rowCanvasHeight fourNodeMeasured ?meta"
    and x: "\<forall>e \<in> set (basePositionsById ?meta).
          rowPosition fourNodeMeasured ?meta (fst e) (snd e)
            = exactRowPosition fourNodeMeasured ?meta (fst e) (snd e)"
       "rowCanvasHeight fourNodeMeasured ?meta = exactCanvasHeight fourNodeMeasured ?meta"
    by blast
  have rows: "rowMaxHeight fourNodeMeasured ?meta 0 = 60"
    "rowMaxHeight fourNodeMeasured ?meta (Suc 0) = 150"
    "rowMaxHeight fourNodeMeasured ?meta 2 = 70"
    by (simp_all add: rowMaxHeight_def rowHeights_def base fourNodeLayout_def fourNodeMeasured_def
        nodeHeight_def Map_get_def)
  have tops: "exactRowTop fourNodeMeasured ?meta 2 = 350"
    by (simp add: numeral_2_eq_2 rows base)
  have e: "(''004'', \<lparr> bp_left = 0, bp_centerX = 140, bp_depth = 2 \<rparr>) \<in> set (basePositionsById ?meta)"
    by (simp add: base fourNodeLayout_def)
  have "positionOf ?s ''004''
      = Some (rowPosition fourNodeMeasured ?meta ''004'' \<lparr> bp_left = 0, bp_centerX = 140, bp_depth = 2 \<rparr>)"
    using m(2) e by (fastforce simp: positionOf_def m(1))
  moreover have "rowPosition fourNodeMeasured ?meta ''004'' \<lparr> bp_left = 0, bp_centerX = 140, bp_depth = 2 \<rparr>
      = exactRowPosition fourNodeMeasured ?meta ''004'' \<lparr> bp_left = 0, bp_centerX = 140, bp_depth = 2 \<rparr>"
    using x(1) e by fastforce
  moreover have "nodeHeight fourNodeMeasured 180 ''004'' = 70"
    by (simp add: nodeHeight_def Map_get_def fourNodeMeasured_def)
  ultimately have p: "positionOf ?s ''004''
     = Some \<lparr> pos_left = 0, pos_top = Finite 350, pos_depth = 2, pos_centerX = 140,
              pos_centerY = Finite 385, pos_bottomY = Finite 420 \<rparr>"
    by (simp add: exactRowPosition_def tops base)
  have ch: "canvasHeight ?s = Finite 490"
    using c x(2) by (simp add: exactCanvasHeight_def base tops rows)
  show ?thesis using p ch grid geo fourNode_depths by simp
qed

text \<open>
  C1 (as stated) fails for a measured height that is not a whole number: with the root
  alone measured at 60.5 (a double), the last row's bottom is 60.5 and the canvas height
  is \<open>Math.ceil(130.5) = 131\<close>, not 130.5.
\<close>

theorem canvas_height_counterexample:
  "fl (121 / 2) = Finite (121 / 2) \<and>
   nodeBottomY (afterRelayoutWithHeights singleNodeEnv fractionalHeights singleNodeLoaded) ''001''
     = Some (Finite (121 / 2)) \<and>
   canvasHeight (afterRelayoutWithHeights singleNodeEnv fractionalHeights singleNodeLoaded)
     = Finite 131 \<and>
   canvasHeight (afterRelayoutWithHeights singleNodeEnv fractionalHeights singleNodeLoaded)
     \<noteq> Finite (121 / 2 + GAP_Y)"
  by (simp add: scenario_defs reflow_defs fractionalHeights_def Let_def List.map_filter_def)

section \<open>Row alignment\<close>

text \<open>
  C3.  In every position map the re-flow produces, two nodes of the same depth have the
  same top, whatever their measured heights.
\<close>

theorem row_alignment:
  assumes "layoutMeta (applyRowHeightLayout E s) = Some meta'"
    and "(i, p) \<in> set (positionsById meta')"
    and "(j, q) \<in> set (positionsById meta')"
    and "pos_depth p = pos_depth q"
  shows "pos_top p = pos_top q"
proof -
  from assms(1) obtain meta where meta: "layoutMeta s = Some meta"
    by (cases "layoutMeta s") (auto simp: applyRowHeightLayout_def)
  let ?m = "measuredHeightsById s"
  let ?tops = "topByDepth ?m meta"
  let ?f = "\<lambda>e. \<lparr> pos_left = bp_left (snd e),
           pos_top = top_or_0 ?tops (bp_depth (snd e)),
           pos_depth = bp_depth (snd e),
           pos_centerX = bp_centerX (snd e),
           pos_centerY =
             js_add (top_or_0 ?tops (bp_depth (snd e)))
               (js_half (Finite (nodeHeight ?m (nodeMaxHeight meta) (fst e)))),
           pos_bottomY =
             js_add (top_or_0 ?tops (bp_depth (snd e)))
               (Finite (nodeHeight ?m (nodeMaxHeight meta) (fst e))) \<rparr>"
  have step: "adjustStep ?m (nodeMaxHeight meta) ?tops = (\<lambda>e. Map_set (fst e) (?f e))"
    by (simp add: adjustStep_def fun_eq_iff Let_def)
  have pm: "positionsById meta' = fold (\<lambda>e. Map_set (fst e) (?f e)) (basePositionsById meta) []"
    using assms(1) by (auto simp: applyRowHeightLayout_layoutMeta [OF meta]
        adjustedPositionsById_def step)
  have top: "pos_top r = top_or_0 ?tops (pos_depth r)" if "(k, r) \<in> set (positionsById meta')" for k r
    using fold_Map_set_entries [of "(k, r)" ?f "basePositionsById meta" "[]"] that
    unfolding pm by auto
  show ?thesis using top [OF assms(2)] top [OF assms(3)] assms(4) by simp
qed

theorem row_alignment_witness:
  "(''002'', \<lparr> pos_left = 0, pos_top = Finite 130, pos_depth = 1, pos_centerX = 140,
              pos_centerY = Finite 205, pos_bottomY = Finite 280 \<rparr>)
     \<in> set (positionsById (the (layoutMeta fourNodeMeasuredState))) \<and>
   (''003'', \<lparr> pos_left = 340, pos_top = Finite 130, pos_depth = 1, pos_centerX = 480,
              pos_centerY = Finite 170, pos_bottomY = Finite 210 \<rparr>)
     \<in> set (positionsById (the (layoutMeta fourNodeMeasuredState))) \<and>
   pos_top \<lparr> pos_left = 0, pos_top = Finite 130, pos_depth = 1, pos_centerX = 140,
             pos_centerY = Finite 205, pos_bottomY = Finite 280 \<rparr>
     = pos_top \<lparr> pos_left = 340, pos_top = Finite 130, pos_depth = 1, pos_centerX = 480,
                 pos_centerY = Finite 170, pos_bottomY = Finite 210 \<rparr>"
proof -
  let ?p = "\<lparr> pos_left = 0, pos_top = Finite 130, pos_depth = 1, pos_centerX = 140,
              pos_centerY = Finite 205, pos_bottomY = Finite 280 \<rparr>"
  let ?q = "\<lparr> pos_left = 340, pos_top = Finite 130, pos_depth = 1, pos_centerX = 480,
              pos_centerY = Finite 170, pos_bottomY = Finite 210 \<rparr>"
  let ?s = "fourNodeLoaded \<lparr> measuredHeightsById := fourNodeMeasured \<rparr>"
  have ps: "positionsById (the (layoutMeta fourNodeMeasuredState))
      = [(''001'', \<lparr> pos_left = 170, pos_top = Finite 0, pos_depth = 0, pos_centerX = 310,
                     pos_centerY = Finite 30, pos_bottomY = Finite 60 \<rparr>),
         (''002'', ?p), (''003'', ?q),
         (''004'', \<lparr> pos_left = 0, pos_top = Finite 350, pos_depth = 2, pos_centerX = 140,
                     pos_centerY = Finite 385, pos_bottomY = Finite 420 \<rparr>)]"
    by (simp add: fourNodeMeasuredState_def fourNodeMeasured_def scenario_defs reflow_defs
        Let_def List.map_filter_def)
  have m: "layoutMeta (applyRowHeightLayout fourNodeEnv ?s)
      = Some (the (layoutMeta fourNodeMeasuredState))"
    by (simp add: fourNodeMeasuredState_def fourNodeLoaded_def buildRenderModel_def
        applyRowHeightLayout_def Let_def)
  have p: "(''002'', ?p) \<in> set (positionsById (the (layoutMeta fourNodeMeasuredState)))"
    and q: "(''003'', ?q) \<in> set (positionsById (the (layoutMeta fourNodeMeasuredState)))"
    by (simp_all add: ps)
  have d: "pos_depth ?p = pos_depth ?q" by simp
  show ?thesis using p q row_alignment [OF m p q d] by blast
qed

section \<open>Re-flow is idempotent\<close>

lemma maxHeightLoop_positions [simp]:
  "maxHeightLoop m (meta \<lparr> positionsById := p \<rparr>) = maxHeightLoop m meta"
  by (simp add: maxHeightLoop_def)

lemma maxHeightByDepth_positions [simp]:
  "maxHeightByDepth m (meta \<lparr> positionsById := p \<rparr>) = maxHeightByDepth m meta"
  by (simp add: maxHeightByDepth_def)

lemma topByDepth_positions [simp]:
  "topByDepth m (meta \<lparr> positionsById := p \<rparr>) = topByDepth m meta"
  by (simp add: topByDepth_def)

lemma adjustedPositionsById_positions [simp]:
  "adjustedPositionsById m (meta \<lparr> positionsById := p \<rparr>) = adjustedPositionsById m meta"
  by (simp add: adjustedPositionsById_def)

lemma lastRowBottom_positions [simp]:
  "lastRowBottom m (meta \<lparr> positionsById := p \<rparr>) = lastRowBottom m meta"
  by (simp add: lastRowBottom_def)

lemma positionNode_positions [simp]:
  "positionNode (meta \<lparr> positionsById := p \<rparr>) = positionNode meta"
  by (simp add: positionNode_def fun_eq_iff split: option.split)

text \<open>
  C2.  Applying the row-height resolution a second time, with the measured-height map
  unchanged, gives the same component state as applying it once: the same position map
  (left, top, depth, centerX, centerY, bottomY of every node), the same positioned nodes,
  the same connector paths and the same canvas height.
\<close>

theorem applyRowHeightLayout_idempotent:
  "applyRowHeightLayout E (applyRowHeightLayout E s) = applyRowHeightLayout E s"
  by (cases "layoutMeta s") (simp_all add: applyRowHeightLayout_def Let_def)

section \<open>The cap message shown\<close>

text \<open>
  C10.  For a loaded hierarchy result that is capped, the cap warning is shown, and its
  message is the fallback \<open>Results were capped.\<close> when the result's \<open>capMessage\<close> is
  absent or empty, and the result's \<open>capMessage\<close> itself otherwise.
\<close>

theorem capMessage_displayed:
  assumes "hierarchy s = Some h" and "h_capped h"
  shows "isCapped s \<and>
         (h_capMessage h = None \<or> h_capMessage h = Some [] \<longrightarrow>
            capMessage s = ''Results were capped.'') \<and>
         (\<forall>m. h_capMessage h = Some m \<and> m \<noteq> [] \<longrightarrow> capMessage s = m)"
  using assms by (auto simp: isCapped_def capMessage_def)

theorem capMessage_displayed_witness:
  "isCapped (onFetchResolved singleNodeEnv (Some cappedHierarchy) singleNodeLoaded) \<and>
   capMessage (onFetchResolved singleNodeEnv (Some cappedHierarchy) singleNodeLoaded)
     = ''Capped at 50 nodes'' \<and>
   capMessage (onFetchResolved singleNodeEnv (Some (cappedHierarchy \<lparr> h_capMessage := None \<rparr>))
       singleNodeLoaded) = ''Results were capped.''"
proof -
  let ?s = "onFetchResolved singleNodeEnv (Some cappedHierarchy) singleNodeLoaded"
  let ?h' = "cappedHierarchy \<lparr> h_capMessage := None \<rparr>"
  let ?s' = "onFetchResolved singleNodeEnv (Some ?h') singleNodeLoaded"
  have h: "hierarchy ?s = Some cappedHierarchy" "hierarchy ?s' = Some ?h'"
    by (simp_all add: onFetchResolved_def buildRenderModel_def applyRowHeightLayout_def Let_def)
  have c: "h_capped cappedHierarchy" "h_capped ?h'"
    "h_capMessage cappedHierarchy = Some ''Capped at 50 nodes''" "h_capMessage ?h' = None"
    by (simp_all add: cappedHierarchy_def)
  show ?thesis
    using capMessage_displayed [OF h(1) c(1)] capMessage_displayed [OF h(2) c(2)] c(3,4)
    by simp
qed

section \<open>The fetch request\<close>

lemma set_removeAt: "set (removeAt k xs) \<subseteq> set xs"
  unfolding removeAt_def using set_take_subset [of k xs] set_drop_subset [of "Suc k" xs] by auto

lemma refreshHierarchy_capped:
  "snd (refreshHierarchy E s) = Some req \<Longrightarrow> cappedRequest req"
  by (auto simp: refreshHierarchy_def cappedRequest_def MAX_LEVELS_def MAX_NODES_def
      split: if_splits)

lemma step_capped:
  assumes "list_all cappedRequest (inFlight sys)"
  shows "list_all cappedRequest (inFlight (step E ev sys))"
proof (cases ev)
  case RefreshHierarchy
  then show ?thesis
    using assms refreshHierarchy_capped [of E "component sys"]
    by (cases "snd (refreshHierarchy E (component sys))") simp_all
next
  case (FetchResolved k result)
  then show ?thesis using assms set_removeAt [of k "inFlight sys"] by (auto simp: list_all_iff)
next
  case (FetchRejected k message)
  then show ?thesis using assms set_removeAt [of k "inFlight sys"] by (auto simp: list_all_iff)
qed (use assms in simp_all)

lemma run_capped:
  "list_all cappedRequest (inFlight sys) \<Longrightarrow> list_all cappedRequest (inFlight (run E evs sys))"
  unfolding run_def
  by (induction evs arbitrary: sys) (simp_all add: step_capped)

text \<open>
  C7.  With a template name, \<open>refreshHierarchy\<close> issues a request that carries the
  normalised root override when that is not empty, and the normalised ambient record id
  when the override is empty and the record id is not; so with both ids supplied the
  request uses the override.  Every request it hands to \<open>getHierarchy\<close> carries the
  effective root id, which is not empty, the normalised template name, and
  \<open>maxLevels = 10\<close> and \<open>maxNodes = 50\<close>; so does every request in flight in any run of
  the component.
\<close>

theorem fetch_request_root_and_caps:
  "(normalizeString E (templateDeveloperName s) \<noteq> [] \<and>
    normalizeString E (rootRecordId s) \<noteq> [] \<longrightarrow>
      snd (refreshHierarchy E s)
        = Some \<lparr> req_templateDeveloperName = normalizeString E (templateDeveloperName s),
                 req_effectiveRootRecordId = normalizeString E (rootRecordId s),
                 req_maxLevels = 10, req_maxNodes = 50 \<rparr>) \<and>
   (normalizeString E (templateDeveloperName s) \<noteq> [] \<and>
    normalizeString E (rootRecordId s) = [] \<and> normalizeString E (recordId s) \<noteq> [] \<longrightarrow>
      snd (refreshHierarchy E s)
        = Some \<lparr> req_templateDeveloperName = normalizeString E (templateDeveloperName s),
                 req_effectiveRootRecordId = normalizeString E (recordId s),
                 req_maxLevels = 10, req_maxNodes = 50 \<rparr>) \<and>
   (\<forall>s' req. refreshHierarchy E s = (s', Some req) \<longrightarrow>
      req_effectiveRootRecordId req = effectiveRootRecordId E s \<and>
      (normalizeString E (rootRecordId s) \<noteq> [] \<longrightarrow>
         req_effectiveRootRecordId req = normalizeString E (rootRecordId s)) \<and>
      (normalizeString E (rootRecordId s) = [] \<longrightarrow>
         req_effectiveRootRecordId req = normalizeString E (recordId s)) \<and>
      req_effectiveRootRecordId req \<noteq> [] \<and>
      req_templateDeveloperName req = normalizeString E (templateDeveloperName s) \<and>
      req_maxLevels req = 10 \<and> req_maxNodes req = 50) \<and>
   (\<forall>req \<in> set (inFlight (run E evs initialSystem)).
      req_effectiveRootRecordId req \<noteq> [] \<and> req_maxLevels req = 10 \<and> req_maxNodes req = 50)"
proof (intro conjI)
  have "list_all cappedRequest (inFlight (run E evs initialSystem))"
    by (rule run_capped) (simp add: initialSystem_def)
  then show "\<forall>req \<in> set (inFlight (run E evs initialSystem)).
      req_effectiveRootRecordId req \<noteq> [] \<and> req_maxLevels req = 10 \<and> req_maxNodes req = 50"
    by (simp add: list_all_iff cappedRequest_def)
qed (auto simp: refreshHierarchy_def effectiveRootRecordId_def or_else_def
      MAX_LEVELS_def MAX_NODES_def split: if_splits)

theorem fetch_request_root_and_caps_witness:
  "snd (refreshHierarchy singleNodeEnv overrideStart)
     = Some \<lparr> req_templateDeveloperName = ''MyTemplate'', req_effectiveRootRecordId = ''002'',
              req_maxLevels = 10, req_maxNodes = 50 \<rparr> \<and>
   snd (refreshHierarchy singleNodeEnv ambientStart)
     = Some \<lparr> req_templateDeveloperName = ''MyTemplate'', req_effectiveRootRecordId = ''001'',
              req_maxLevels = 10, req_maxNodes = 50 \<rparr> \<and>
   inFlight (run singleNodeEnv pendingFetchRun initialSystem)
     = [\<lparr> req_templateDeveloperName = ''MyTemplate'', req_effectiveRootRecordId = ''001'',
          req_maxLevels = 10, req_maxNodes = 50 \<rparr>] \<and>
   cappedRequest \<lparr> req_templateDeveloperName = ''MyTemplate'', req_effectiveRootRecordId = ''001'',
                   req_maxLevels = 10, req_maxNodes = 50 \<rparr>"
proof -
  let ?req = "\<lparr> req_templateDeveloperName = ''MyTemplate'', req_effectiveRootRecordId = ''001'',
                req_maxLevels = 10, req_maxNodes = 50 \<rparr>"
  note over = fetch_request_root_and_caps
    [where E = singleNodeEnv and s = overrideStart and evs = pendingFetchRun]
  note amb = fetch_request_root_and_caps
    [where E = singleNodeEnv and s = ambientStart and evs = pendingFetchRun]
  have o: "normalizeString singleNodeEnv (templateDeveloperName overrideStart) = ''MyTemplate''"
    "normalizeString singleNodeEnv (rootRecordId overrideStart) = ''002''"
    by (simp_all add: overrideStart_def initialState_def single_normalize)
  have a: "normalizeString singleNodeEnv (templateDeveloperName ambientStart) = ''MyTemplate''"
    "normalizeString singleNodeEnv (rootRecordId ambientStart) = []"
    "normalizeString singleNodeEnv (recordId ambientStart) = ''001''"
    by (simp_all add: ambientStart_def initialState_def single_normalize)
  have one: "snd (refreshHierarchy singleNodeEnv overrideStart)
     = Some \<lparr> req_templateDeveloperName = ''MyTemplate'', req_effectiveRootRecordId = ''002'',
              req_maxLevels = 10, req_maxNodes = 50 \<rparr>"
    using over by (simp add: o)
  have two: "snd (refreshHierarchy singleNodeEnv ambientStart) = Some ?req"
    using amb by (simp add: a)
  have run: "inFlight (run singleNodeEnv pendingFetchRun initialSystem) = [?req]"
    by (simp add: run_def pendingFetchRun_def initialSystem_def initialState_def
        refreshHierarchy_def effectiveRootRecordId_def or_else_def single_normalize
        MAX_LEVELS_def MAX_NODES_def)
  have "?req \<in> set (inFlight (run singleNodeEnv pendingFetchRun initialSystem))"
    by (simp add: run)
  then have three: "cappedRequest ?req"
    using amb by (simp add: cappedRequest_def)
  show ?thesis using one two run three by (simp only: simp_thms)
qed

section \<open>Skipped refreshes and the loading flag\<close>

lemma isLoading_refresh_skipped:
  "missingInputs E s \<Longrightarrow>
   refreshHierarchy E s = (s \<lparr> hierarchy := None, errorMessage := None \<rparr>, None)"
  by (simp add: refreshHierarchy_def missingInputs_def)

lemma refresh_issued:
  "\<not> missingInputs E s \<Longrightarrow> \<exists>req. snd (refreshHierarchy E s) = Some req"
  by (simp add: refreshHierarchy_def missingInputs_def)

lemma isLoading_onFetchResolved [simp]: "\<not> isLoading (onFetchResolved E result s)"
  by (simp add: onFetchResolved_def)

lemma isLoading_onFetchRejected [simp]: "\<not> isLoading (fst (onFetchRejected message s))"
  by (simp add: onFetchRejected_def)

lemma step_loadingAccounted:
  assumes "loadingAccounted sys"
  shows "loadingAccounted (step E ev sys)"
proof (cases ev)
  case RefreshHierarchy
  show ?thesis
  proof (cases "missingInputs E (component sys)")
    case True
    then show ?thesis
      using assms RefreshHierarchy
      by (simp add: loadingAccounted_def isLoading_refresh_skipped)
  next
    case False
    then obtain req where "snd (refreshHierarchy E (component sys)) = Some req"
      using refresh_issued by blast
    then show ?thesis using RefreshHierarchy by (simp add: loadingAccounted_def)
  qed
qed (use assms in \<open>simp_all add: loadingAccounted_def\<close>)

lemma run_loadingAccounted:
  "loadingAccounted sys \<Longrightarrow> loadingAccounted (run E evs sys)"
  unfolding run_def
  by (induction evs arbitrary: sys) (simp_all add: step_loadingAccounted)

lemma initialSystem_loadingAccounted: "loadingAccounted initialSystem"
  by (simp add: loadingAccounted_def initialSystem_def initialState_def)

text \<open>
  C9 (as amended).  When the normalised template name or the effective root id is
  empty, \<open>refreshHierarchy\<close> issues no fetch and shows no toast, and clears the
  hierarchy and the error message; it leaves the loading flag as it was.  The loading
  flag is false after the callbacks of a resolved fetch and after those of a rejected
  fetch, and in every run of the component from its initial state the flag is false
  whenever no fetch is in flight; so after a skipped refresh it is false unless an
  earlier fetch is still in flight.
\<close>

theorem refresh_skip_and_loading_flag:
  "(missingInputs E (component sys) \<longrightarrow>
      refreshHierarchy E (component sys)
        = ((component sys) \<lparr> hierarchy := None, errorMessage := None \<rparr>, None) \<and>
      hierarchy (component (step E RefreshHierarchy sys)) = None \<and>
      errorMessage (component (step E RefreshHierarchy sys)) = None \<and>
      inFlight (step E RefreshHierarchy sys) = inFlight sys \<and>
      toasts (step E RefreshHierarchy sys) = toasts sys \<and>
      isLoading (component (step E RefreshHierarchy sys)) = isLoading (component sys)) \<and>
   \<not> isLoading (onFetchResolved E result s) \<and>
   \<not> isLoading (fst (onFetchRejected message s)) \<and>
   (inFlight (run E evs initialSystem) = [] \<longrightarrow>
      \<not> isLoading (component (run E evs initialSystem)))"
proof -
  have "loadingAccounted (run E evs initialSystem)"
    by (rule run_loadingAccounted [OF initialSystem_loadingAccounted])
  then show ?thesis
    by (auto simp: loadingAccounted_def isLoading_refresh_skipped)
qed

lemma clearedInputsRun_system:
  "inFlight (run singleNodeEnv clearedInputsRun initialSystem) = []"
  "toasts (run singleNodeEnv clearedInputsRun initialSystem) = []"
  "hierarchy (component (run singleNodeEnv clearedInputsRun initialSystem)) = Some singleNodeHierarchy"
  "recordId (component (run singleNodeEnv clearedInputsRun initialSystem)) = VUndefined"
  "rootRecordId (component (run singleNodeEnv clearedInputsRun initialSystem)) = VUndefined"
  by (simp_all add: run_def clearedInputsRun_def initialSystem_def initialState_def
      refreshHierarchy_def effectiveRootRecordId_def or_else_def singleNodeEnv_def tableEnv_def
      onFetchResolved_def buildRenderModel_def applyRowHeightLayout_def Let_def removeAt_def)

theorem refresh_skip_and_loading_flag_witness:
  "missingInputs singleNodeEnv (component (run singleNodeEnv clearedInputsRun initialSystem)) \<and>
   hierarchy (component (run singleNodeEnv clearedInputsRun initialSystem))
     = Some singleNodeHierarchy \<and>
   hierarchy (component (step singleNodeEnv RefreshHierarchy
       (run singleNodeEnv clearedInputsRun initialSystem))) = None \<and>
   errorMessage (component (step singleNodeEnv RefreshHierarchy
       (run singleNodeEnv clearedInputsRun initialSystem))) = None \<and>
   toasts (step singleNodeEnv RefreshHierarchy
       (run singleNodeEnv clearedInputsRun initialSystem)) = [] \<and>
   inFlight (run singleNodeEnv (clearedInputsRun @ [RefreshHierarchy]) initialSystem) = [] \<and>
   \<not> isLoading (component (run singleNodeEnv (clearedInputsRun @ [RefreshHierarchy]) initialSystem))"
proof -
  let ?sys = "run singleNodeEnv clearedInputsRun initialSystem"
  let ?evs = "clearedInputsRun @ [RefreshHierarchy]"
  have ns: "normalizeString singleNodeEnv VUndefined = []"
    by (simp add: singleNodeEnv_def tableEnv_def)
  have missing: "missingInputs singleNodeEnv (component ?sys)"
    by (simp add: missingInputs_def effectiveRootRecordId_def or_else_def clearedInputsRun_system ns)
  have unfold: "run singleNodeEnv ?evs initialSystem = step singleNodeEnv RefreshHierarchy ?sys"
    by (simp add: run_def)
  note facts = refresh_skip_and_loading_flag
    [where E = singleNodeEnv and sys = ?sys and evs = ?evs]
  have skipped: "hierarchy (component (step singleNodeEnv RefreshHierarchy ?sys)) = None"
    "errorMessage (component (step singleNodeEnv RefreshHierarchy ?sys)) = None"
    "inFlight (step singleNodeEnv RefreshHierarchy ?sys) = inFlight ?sys"
    "toasts (step singleNodeEnv RefreshHierarchy ?sys) = toasts ?sys"
    using facts missing by blast+
  have idle: "inFlight (run singleNodeEnv ?evs initialSystem) = []"
    using skipped(3) by (simp only: unfold clearedInputsRun_system)
  have "\<not> isLoading (component (run singleNodeEnv ?evs initialSystem))"
    using facts idle by blast
  then show ?thesis
    using missing skipped idle by (simp add: clearedInputsRun_system)
qed

text \<open>
  C9 (as stated) fails for a refresh that is skipped while an earlier fetch is still in
  flight: the skipped refresh clears the display and leaves the loading flag set.
\<close>

theorem skipped_refresh_counterexample:
  "missingInputs singleNodeEnv (component (run singleNodeEnv pendingFetchRun initialSystem)) \<and>
   snd (refreshHierarchy singleNodeEnv
       (component (run singleNodeEnv pendingFetchRun initialSystem))) = None \<and>
   hierarchy (component (step singleNodeEnv RefreshHierarchy
       (run singleNodeEnv pendingFetchRun initialSystem))) = None \<and>
   length (inFlight (step singleNodeEnv RefreshHierarchy
       (run singleNodeEnv pendingFetchRun initialSystem))) = 1 \<and>
   isLoading (component (step singleNodeEnv RefreshHierarchy
       (run singleNodeEnv pendingFetchRun initialSystem)))"
  by (simp add: run_def pendingFetchRun_def initialSystem_def initialState_def missingInputs_def
      refreshHierarchy_def effectiveRootRecordId_def or_else_def single_normalize)

section \<open>Filtering of the heights passed to \<open>relayoutWithHeights\<close>\<close>

lemma collectHeights_accepted:
  assumes "distinct (map fst entries)"
    and "fst ` set entries \<inter> fst ` set acc = {}"
    and "list_all (coercible E) entries"
  shows "collectHeights E entries acc = Inr (acc @ acceptedHeights E entries)"
  using assms
proof (induction entries arbitrary: acc)
  case Nil
  then show ?case by (simp add: acceptedHeights_def List.map_filter_simps)
next
  case (Cons entry entries)
  obtain ident height where entry: "entry = (ident, height)" by (cases entry)
  have d: "distinct (map fst entries)" and c: "list_all (coercible E) entries"
    and fresh: "ident \<notin> fst ` set acc" and later: "ident \<notin> fst ` set entries"
    and disj: "fst ` set entries \<inter> fst ` set acc = {}"
    using Cons.prems entry by auto
  have keep: "collectHeights E entries acc = Inr (acc @ acceptedHeights E entries)"
    by (rule Cons.IH [OF d disj c])
  show ?case
  proof (cases "acceptedEntry E entry")
    case None
    then have "collectHeights E (entry # entries) acc = collectHeights E entries acc"
      using Cons.prems(3) entry
      by (auto simp: acceptedEntry_def coercible_def split: if_splits sum.splits number.splits)
    then show ?thesis using keep None by (simp add: acceptedHeights_def List.map_filter_simps)
  next
    case (Some kv)
    then obtain numeric where n: "ident \<noteq> []" "Number E height = Inr (Finite numeric)"
      "0 < numeric" "kv = (ident, Finite numeric)"
      using entry by (auto simp: acceptedEntry_def split: if_splits sum.splits number.splits)
    have disj': "fst ` set entries \<inter> fst ` set (acc @ [kv]) = {}"
      using disj later n(4) by auto
    have "collectHeights E (entry # entries) acc = collectHeights E entries (acc @ [kv])"
      using n entry by (simp add: Map_set_fresh [OF fresh])
    also have "\<dots> = Inr ((acc @ [kv]) @ acceptedHeights E entries)"
      by (rule Cons.IH [OF d disj' c])
    finally show ?thesis using Some by (simp add: acceptedHeights_def List.map_filter_simps)
  qed
qed

lemma collectHeights_throws:
  assumes "list_all (coercible E) before" and "ident \<noteq> []" and "Number E height = Inl err"
  shows "collectHeights E (before @ (ident, height) # rest) acc = Inl err"
  using assms(1)
proof (induction before arbitrary: acc)
  case Nil
  then show ?case using assms(2,3) by simp
next
  case (Cons entry before)
  obtain k v where entry: "entry = (k, v)" by (cases entry)
  have rest: "collectHeights E (before @ (ident, height) # rest) acc' = Inl err" for acc'
    using Cons by simp
  have "coercible E (k, v)" using Cons.prems entry by simp
  then show ?case
    using rest entry
    by (auto simp: coercible_def split: if_splits sum.splits number.splits)
qed

text \<open>
  The values \<open>Number\<close> cannot convert: a symbol, an object whose conversion to a
  primitive throws, and an object whose conversion yields a symbol.
\<close>

lemma Number_throws:
  "Number E v = Inl err \<longleftrightarrow>
     (\<exists>d. v = VSymbol d \<and> err = TypeError) \<or> v = VObject (Inl err) \<or>
     (\<exists>d. v = VObject (Inr (VSymbol d)) \<and> err = TypeError) \<or>
     (\<exists>p. v = VObject (Inr (VObject p)) \<and> err = TypeError)"
proof (cases v)
  case (VObject r)
  show ?thesis
  proof (cases r)
    case (Inl e)
    then show ?thesis using VObject by auto
  next
    case (Inr prim)
    then show ?thesis using VObject by (cases prim) auto
  qed
qed auto

text \<open>
  What \<open>relayoutWithHeights\<close> does when no value throws: for an argument that is not an
  object it replaces the measured-height map by the empty map and runs one re-flow; for
  an object whose entry values \<open>Number\<close> can convert, it replaces the map by exactly the
  entries with a non-empty key whose value converts to a positive finite number, stored
  as that number and in the order of the entries, and runs one re-flow.
\<close>

lemma relayoutWithHeights_accepted:
  "relayoutWithHeights E NotAnObject s
     = Inr (applyRowHeightLayout E (s \<lparr> measuredHeightsById := [] \<rparr>))"
  "distinct (map fst entries) \<Longrightarrow> list_all (coercible E) entries \<Longrightarrow>
   relayoutWithHeights E (Object entries) s
     = Inr (applyRowHeightLayout E (s \<lparr> measuredHeightsById := acceptedHeights E entries \<rparr>))"
  using collectHeights_accepted [of entries "[]" E]
  by (simp_all add: relayoutWithHeights_def)

lemma mixedHeights_accepted:
  "distinct (map fst mixedHeights)" "list_all (coercible fourNodeEnv) mixedHeights"
  "acceptedHeights fourNodeEnv mixedHeights
     = [(''001'', Finite 60), (''006'', Finite 1), (''009'', Finite 70), (''010'', Finite 80)]"
  by (simp_all add: mixedHeights_def coercible_def acceptedHeights_def acceptedEntry_def
      List.map_filter_simps fourNodeEnv_def tableEnv_def fl_exact)

text \<open>
  C6 (fails in the code).  For an argument that is not an object, and for an object
  whose entry values \<open>Number\<close> can convert, \<open>relayoutWithHeights\<close> replaces the
  measured-height map by exactly the entries with a non-empty key whose value converts
  to a positive finite number, and runs one re-flow.  But it calls \<open>Number(height)\<close>
  with no handler around it: when the entries before one with a non-empty key can be
  converted and \<open>Number\<close> throws on the value of that entry, the call throws that
  exception and neither replaces the measured-height map nor runs a re-flow.  \<open>Number\<close>
  throws a \<open>TypeError\<close> on a symbol, so
  \<open>relayoutWithHeights({"001": Symbol("height")})\<close> throws, on every component.
\<close>

theorem relayoutWithHeights_throws:
  "relayoutWithHeights E NotAnObject s
     = Inr (applyRowHeightLayout E (s \<lparr> measuredHeightsById := [] \<rparr>)) \<and>
   (distinct (map fst entries) \<and> list_all (coercible E) entries \<longrightarrow>
      relayoutWithHeights E (Object entries) s
        = Inr (applyRowHeightLayout E (s \<lparr> measuredHeightsById := acceptedHeights E entries \<rparr>))) \<and>
   (list_all (coercible E) before \<and> ident \<noteq> [] \<and> Number E height = Inl err \<longrightarrow>
      relayoutWithHeights E (Object (before @ (ident, height) # rest)) s = Inl err \<and>
      afterRelayoutWithHeights E (Object (before @ (ident, height) # rest)) s = s) \<and>
   Number E (VSymbol d) = Inl TypeError \<and>
   relayoutWithHeights E (Object [(''001'', VSymbol ''height'')]) s = Inl TypeError"
proof (intro conjI impI)
  show "relayoutWithHeights E NotAnObject s
      = Inr (applyRowHeightLayout E (s \<lparr> measuredHeightsById := [] \<rparr>))"
    by (rule relayoutWithHeights_accepted(1))
  show "relayoutWithHeights E (Object entries) s
      = Inr (applyRowHeightLayout E (s \<lparr> measuredHeightsById := acceptedHeights E entries \<rparr>))"
    if "distinct (map fst entries) \<and> list_all (coercible E) entries"
    using that by (intro relayoutWithHeights_accepted(2)) simp_all
  show "relayoutWithHeights E (Object (before @ (ident, height) # rest)) s = Inl err"
    and "afterRelayoutWithHeights E (Object (before @ (ident, height) # rest)) s = s"
    if "list_all (coercible E) before \<and> ident \<noteq> [] \<and> Number E height = Inl err"
    using that
    by (simp_all add: relayoutWithHeights_def afterRelayoutWithHeights_def collectHeights_throws)
  show "Number E (VSymbol d) = Inl TypeError" by simp
  show "relayoutWithHeights E (Object [(''001'', VSymbol ''height'')]) s = Inl TypeError"
    by (simp add: relayoutWithHeights_def)
qed

theorem relayoutWithHeights_throws_witness:
  "distinct (map fst mixedHeights) \<and> list_all (coercible fourNodeEnv) mixedHeights \<and>
   relayoutWithHeights fourNodeEnv (Object mixedHeights) fourNodeLoaded
     = Inr (applyRowHeightLayout fourNodeEnv
         (fourNodeLoaded \<lparr> measuredHeightsById :=
            [(''001'', Finite 60), (''006'', Finite 1), (''009'', Finite 70),
             (''010'', Finite 80)] \<rparr>)) \<and>
   list_all (coercible fourNodeEnv) [(''001'', VNum (Finite 60))] \<and>
   Number fourNodeEnv (VSymbol ''height'') = Inl TypeError \<and>
   relayoutWithHeights fourNodeEnv (Object symbolHeights) fourNodeLoaded = Inl TypeError \<and>
   afterRelayoutWithHeights fourNodeEnv (Object symbolHeights) fourNodeLoaded = fourNodeLoaded"
proof -
  have c: "list_all (coercible fourNodeEnv) [(''001'', VNum (Finite 60))]"
    by (simp add: coercible_def)
  have n: "Number fourNodeEnv (VSymbol ''height'') = Inl TypeError" by simp
  have k: "''002'' \<noteq> []" by simp
  have s: "symbolHeights = [(''001'', VNum (Finite 60))] @ (''002'', VSymbol ''height'') # []"
    by (simp add: symbolHeights_def)
  note t = relayoutWithHeights_throws
    [where E = fourNodeEnv and before = "[(''001'', VNum (Finite 60))]" and ident = "''002''"
       and height = "VSymbol ''height''" and err = TypeError and rest = "[]"
       and s = fourNodeLoaded and entries = mixedHeights]
  have thrown:
    "relayoutWithHeights fourNodeEnv (Object symbolHeights) fourNodeLoaded = Inl TypeError"
    "afterRelayoutWithHeights fourNodeEnv (Object symbolHeights) fourNodeLoaded = fourNodeLoaded"
    unfolding s using t c n k by blast+
  have "relayoutWithHeights fourNodeEnv (Object mixedHeights) fourNodeLoaded
     = Inr (applyRowHeightLayout fourNodeEnv
         (fourNodeLoaded \<lparr> measuredHeightsById := acceptedHeights fourNodeEnv mixedHeights \<rparr>))"
    using t mixedHeights_accepted(1,2) by blast
  then have kept: "relayoutWithHeights fourNodeEnv (Object mixedHeights) fourNodeLoaded
     = Inr (applyRowHeightLayout fourNodeEnv
         (fourNodeLoaded \<lparr> measuredHeightsById :=
            [(''001'', Finite 60), (''006'', Finite 1), (''009'', Finite 70),
             (''010'', Finite 80)] \<rparr>))"
    by (simp only: mixedHeights_accepted(3))
  show ?thesis
    using mixedHeights_accepted(1,2) kept c n thrown by (simp only: simp_thms)
qed

section \<open>The centering transform\<close>

lemma centerRootInViewport_unavailable:
  "viewportUnavailable vp \<Longrightarrow> centerRootInViewport E vp s = (False, s)"
  by (auto simp: viewportUnavailable_def centerRootInViewport_def split: viewport.splits option.splits)

lemma hierarchyKey_pendingCenter [simp]:
  "hierarchyKey E (s \<lparr> pendingCenter := b \<rparr>) = hierarchyKey E s"
  by (simp add: hierarchyKey_def effectiveRootRecordId_def rootIdValue_def hierarchyNodes_def
      hierarchyEdges_def)

lemma resolvedRootId_pendingCenter [simp]:
  "resolvedRootId E (s \<lparr> pendingCenter := b \<rparr>) = resolvedRootId E s"
  by (simp add: resolvedRootId_def effectiveRootRecordId_def rootIdValue_def firstNodeIdValue_def
      hierarchyNodes_def)

lemma currentScale_pendingCenter [simp]:
  "currentScale (s \<lparr> pendingCenter := b \<rparr>) = currentScale s"
  by (simp add: currentScale_def)



lemmas single_defs =
  singleNodeLoaded_def singleNodeEnv_def tableEnv_def singleNodeHierarchy_def initialState_def
  hierarchyNodes_def hierarchyEdges_def nodeEntry_def positionNode_def

lemma single_loaded:
  "layoutMeta singleNodeLoaded
     = Some \<lparr> basePositionsById = [(''001'', \<lparr> bp_left = 0, bp_centerX = 140, bp_depth = 0 \<rparr>)],
              positionsById = [(''001'', \<lparr> pos_left = 0, pos_top = Finite 0, pos_depth = 0,
                  pos_centerX = 140, pos_centerY = Finite 90, pos_bottomY = Finite 180 \<rparr>)],
              nodeWidth = 280, nodeMaxHeight = 180, gapY = 70, maxDepth = 0 \<rparr>"
  "scale singleNodeLoaded = Finite (3152519739159347 / 4503599627370496)"
  "centeredHierarchyKey singleNodeLoaded = None"
  "hierarchy singleNodeLoaded = Some singleNodeHierarchy"
  "templateDeveloperName singleNodeLoaded = VStr ''MyTemplate''"
  "recordId singleNodeLoaded = VStr ''001''"
  "rootRecordId singleNodeLoaded = VUndefined"
  "translateX singleNodeLoaded = Finite 0" "translateY singleNodeLoaded = Finite 0"
  by (simp_all add: single_defs reflow_defs Let_def scale_double)

lemma string_of_nat_digits: "string_of_nat 0 = ''0''" "string_of_nat (Suc 0) = ''1''"
  by (simp_all add: string_of_nat.simps [of 0] string_of_nat.simps [of "Suc 0"] digit_def)

lemma single_key: "hierarchyKey singleNodeEnv singleNodeLoaded = ''MyTemplate|001|001|1|0''"
  by (simp add: hierarchyKey_def effectiveRootRecordId_def or_else_def rootIdValue_def
      string_or_empty_def hierarchyNodes_def hierarchyEdges_def single_loaded single_normalize
      singleNodeHierarchy_def string_of_nat_digits)

lemma single_root: "resolvedRootId singleNodeEnv singleNodeLoaded = ''001''"
  by (simp add: resolvedRootId_def effectiveRootRecordId_def or_else_def rootIdValue_def
      string_value_def single_loaded single_normalize singleNodeHierarchy_def)

text \<open>
  The transform of the single-node hierarchy at 800 by 600: \<open>140 * 0.7\<close> is rounded to
  98, \<open>90 * 0.7\<close> to the double just below 63, and 300 minus that double to 237.
\<close>

lemma product_x: "fl (140 * (3152519739159347 / 4503599627370496)) = Finite 98"
proof -
  have q: "quantum (140 * (3152519739159347 / 4503599627370496)) = 2 ^ 6 / 2 ^ 52"
    by (rule quantum_ge1) simp_all
  have r: "roundEven (140 * (3152519739159347 / 4503599627370496) / (2 ^ 6 / 2 ^ 52))
      = 6896136929411072"
    by (simp add: roundEven_def)
  have b: "\<bar>of_int 6896136929411072 * (2 ^ 6 / 2 ^ 52)\<bar> < (2::real) ^ 53"
    by simp
  from fl_eval [OF q r b] show ?thesis by simp
qed

lemma product_y:
  "fl (90 * (3152519739159347 / 4503599627370496))
     = Finite (8866461766385663 / 140737488355328)"
proof -
  have q: "quantum (90 * (3152519739159347 / 4503599627370496)) = 2 ^ 5 / 2 ^ 52"
    by (rule quantum_ge1) simp_all
  have r: "roundEven (90 * (3152519739159347 / 4503599627370496) / (2 ^ 5 / 2 ^ 52))
      = 8866461766385663"
    by (simp add: roundEven_def)
  have b: "\<bar>of_int 8866461766385663 * (2 ^ 5 / 2 ^ 52)\<bar> < (2::real) ^ 53"
    by simp
  from fl_eval [OF q r b] show ?thesis by simp
qed

lemma difference_y: "fl (300 - 8866461766385663 / 140737488355328) = Finite 237"
proof -
  have q: "quantum (300 - 8866461766385663 / 140737488355328) = 2 ^ 7 / 2 ^ 52"
    by (rule quantum_ge1) simp_all
  have r: "roundEven ((300 - 8866461766385663 / 140737488355328) / (2 ^ 7 / 2 ^ 52))
      = 8338696185053184"
    by (simp add: roundEven_def)
  have b: "\<bar>of_int 8338696185053184 * (2 ^ 7 / 2 ^ 52)\<bar> < (2::real) ^ 53"
    by simp
  from fl_eval [OF q r b] show ?thesis by simp
qed

lemma single_transform:
  "Math_round (js_sub (js_half (Finite 800))
     (js_mul (Finite 140) (Finite (3152519739159347 / 4503599627370496)))) = Finite 302"
  "Math_round (js_sub (js_half (Finite 600))
     (js_mul (Finite 90) (Finite (3152519739159347 / 4503599627370496)))) = Finite 237"
  using product_x product_y difference_y by (simp_all add: js_sub_def fl_exact)







lemma hierarchyKey_cong:
  "templateDeveloperName s = templateDeveloperName s' \<Longrightarrow> rootRecordId s = rootRecordId s' \<Longrightarrow>
   recordId s = recordId s' \<Longrightarrow> hierarchy s = hierarchy s' \<Longrightarrow>
   hierarchyKey E s = hierarchyKey E s'"
  by (simp add: hierarchyKey_def effectiveRootRecordId_def rootIdValue_def hierarchyNodes_def
      hierarchyEdges_def)


lemma applyRowHeightLayout_keeps:
  "templateDeveloperName (applyRowHeightLayout E s) = templateDeveloperName s"
  "rootRecordId (applyRowHeightLayout E s) = rootRecordId s"
  "recordId (applyRowHeightLayout E s) = recordId s"
  "hierarchy (applyRowHeightLayout E s) = hierarchy s"
  "centeredHierarchyKey (applyRowHeightLayout E s) = centeredHierarchyKey s"
  "translateX (applyRowHeightLayout E s) = translateX s"
  "translateY (applyRowHeightLayout E s) = translateY s"
  "scale (applyRowHeightLayout E s) = scale s"
  by (simp_all add: applyRowHeightLayout_def Let_def split: option.split)





section \<open>Centering is keyed by the hierarchy\<close>

lemma relayoutWithHeights_keeps:
  assumes "relayoutWithHeights E heights s = Inr s'"
  shows "hierarchyKey E s' = hierarchyKey E s"
    and "centeredHierarchyKey s' = centeredHierarchyKey s"
    and "translateX s' = translateX s" and "translateY s' = translateY s"
proof -
  from assms obtain m where s': "s' = applyRowHeightLayout E (s \<lparr> measuredHeightsById := m \<rparr>)"
    by (auto simp: relayoutWithHeights_def split: sum.splits)
  show "hierarchyKey E s' = hierarchyKey E s"
    unfolding s' by (rule hierarchyKey_cong) (simp_all add: applyRowHeightLayout_keeps)
  show "centeredHierarchyKey s' = centeredHierarchyKey s" "translateX s' = translateX s"
    "translateY s' = translateY s"
    unfolding s' by (simp_all add: applyRowHeightLayout_keeps)
qed

lemma centerRootInViewport_centered:
  assumes "centeredHierarchyKey s = Some (hierarchyKey E s)"
  shows "snd (centerRootInViewport E vp s) = s"
  using assms by (simp add: centerRootInViewport_def split: viewport.split option.split)

lemma centerRootInViewport_already:
  assumes "centeredHierarchyKey s = Some (hierarchyKey E s)"
    and "\<not> viewportUnavailable vp" and "layoutMeta s \<noteq> None"
  shows "centerRootInViewport E vp s = (True, s)"
  using assms
  by (auto simp: centerRootInViewport_def viewportUnavailable_def split: viewport.splits option.splits)

lemma centerRootInViewport_success:
  assumes "fst (centerRootInViewport E vp s)"
  shows "centeredHierarchyKey (snd (centerRootInViewport E vp s))
           = Some (hierarchyKey E (snd (centerRootInViewport E vp s)))"
    and "hierarchyKey E (snd (centerRootInViewport E vp s)) = hierarchyKey E s"
proof -
  have k: "hierarchyKey E (s \<lparr> translateX := x, translateY := y, centeredHierarchyKey := c \<rparr>)
      = hierarchyKey E s" for x y c
    by (rule hierarchyKey_cong) simp_all
  show "hierarchyKey E (snd (centerRootInViewport E vp s)) = hierarchyKey E s"
    by (simp add: centerRootInViewport_def k split: viewport.split option.split)
  show "centeredHierarchyKey (snd (centerRootInViewport E vp s))
           = Some (hierarchyKey E (snd (centerRootInViewport E vp s)))"
    using assms
    by (auto simp: centerRootInViewport_def k split: viewport.splits option.splits if_splits)
qed

lemma recenter_centered:
  assumes "centeredHierarchyKey s = Some (hierarchyKey E s)"
  shows "translateX (recenter E vp s) = translateX s"
    and "translateY (recenter E vp s) = translateY s"
    and "centeredHierarchyKey (recenter E vp s) = centeredHierarchyKey s"
proof -
  have c: "centeredHierarchyKey (s \<lparr> pendingCenter := True \<rparr>)
      = Some (hierarchyKey E (s \<lparr> pendingCenter := True \<rparr>))"
    using assms by simp
  show "translateX (recenter E vp s) = translateX s" "translateY (recenter E vp s) = translateY s"
    "centeredHierarchyKey (recenter E vp s) = centeredHierarchyKey s"
    by (simp_all add: recenter_def tryCenterRootInViewport_def centerRootInViewport_centered [OF c])
qed

lemma centerRootInViewport_pendingCenter:
  "pendingCenter (snd (centerRootInViewport E vp s)) = pendingCenter s"
  by (simp add: centerRootInViewport_def split: viewport.split option.split)

lemma recenter_success:
  assumes "\<not> pendingCenter (recenter E vp s)"
  shows "centeredHierarchyKey (recenter E vp s) = Some (hierarchyKey E (recenter E vp s))"
    and "hierarchyKey E (recenter E vp s) = hierarchyKey E s"
proof -
  let ?s = "s \<lparr> pendingCenter := True \<rparr>"
  let ?c = "centerRootInViewport E vp ?s"
  have f: "fst ?c"
  proof (rule ccontr)
    assume "\<not> fst ?c"
    then have "recenter E vp s = snd ?c" by (simp add: recenter_def tryCenterRootInViewport_def)
    then show False using assms by (simp add: centerRootInViewport_pendingCenter)
  qed
  then have r: "recenter E vp s = (snd ?c) \<lparr> pendingCenter := False \<rparr>"
    by (simp add: recenter_def tryCenterRootInViewport_def)
  show "hierarchyKey E (recenter E vp s) = hierarchyKey E s"
    using centerRootInViewport_success(2) [OF f] by (simp add: r)
  then show "centeredHierarchyKey (recenter E vp s) = Some (hierarchyKey E (recenter E vp s))"
    using centerRootInViewport_success(1,2) [OF f] by (simp add: r)
qed

text \<open>
  C5 (as amended).  When the hierarchy key equals the key of the last successful
  centering, \<open>recenter\<close> leaves \<open>translateX\<close>, \<open>translateY\<close> and the recorded key
  unchanged; it reports already-centered and clears the pending flag when the viewport
  is present with positive width and height and a layout exists.  In particular, after
  a successful \<open>recenter\<close> (one that clears the pending flag) followed by
  \<open>relayoutWithHeights\<close> with any heights, the key is unchanged and every \<open>recenter\<close>
  keeps the translation of that centering.  The translation changes in \<open>recenter\<close> only
  when the key differs from the recorded one.  With the same key and a viewport that is
  missing or without a size, \<open>recenter\<close> returns unsuccessfully and leaves the pending
  flag set.
\<close>

theorem centering_idempotent:
  "(centeredHierarchyKey s = Some (hierarchyKey E s) \<longrightarrow>
      translateX (recenter E vp s) = translateX s \<and>
      translateY (recenter E vp s) = translateY s \<and>
      centeredHierarchyKey (recenter E vp s) = centeredHierarchyKey s \<and>
      (\<not> viewportUnavailable vp \<and> layoutMeta s \<noteq> None \<longrightarrow>
         centerRootInViewport E vp s = (True, s) \<and> \<not> pendingCenter (recenter E vp s))) \<and>
   (\<not> pendingCenter (recenter E vp0 s0) \<and>
    relayoutWithHeights E heights (recenter E vp0 s0) = Inr s2 \<longrightarrow>
      centeredHierarchyKey s2 = Some (hierarchyKey E s2) \<and>
      hierarchyKey E s2 = hierarchyKey E s0 \<and>
      translateX (recenter E vp s2) = translateX (recenter E vp0 s0) \<and>
      translateY (recenter E vp s2) = translateY (recenter E vp0 s0)) \<and>
   (translateX (recenter E vp s) \<noteq> translateX s \<or> translateY (recenter E vp s) \<noteq> translateY s \<longrightarrow>
      centeredHierarchyKey s \<noteq> Some (hierarchyKey E s)) \<and>
   (centeredHierarchyKey s = Some (hierarchyKey E s) \<and> viewportUnavailable vp \<longrightarrow>
      \<not> fst (centerRootInViewport E vp s) \<and> pendingCenter (recenter E vp s))"
proof (intro conjI impI)
  assume c: "centeredHierarchyKey s = Some (hierarchyKey E s)"
  show "translateX (recenter E vp s) = translateX s" "translateY (recenter E vp s) = translateY s"
    "centeredHierarchyKey (recenter E vp s) = centeredHierarchyKey s"
    by (rule recenter_centered [OF c])+
  assume ok: "\<not> viewportUnavailable vp \<and> layoutMeta s \<noteq> None"
  show "centerRootInViewport E vp s = (True, s)"
    using centerRootInViewport_already [OF c] ok by blast
  have c': "centeredHierarchyKey (s \<lparr> pendingCenter := True \<rparr>)
      = Some (hierarchyKey E (s \<lparr> pendingCenter := True \<rparr>))"
    using c by simp
  have "centerRootInViewport E vp (s \<lparr> pendingCenter := True \<rparr>) = (True, s \<lparr> pendingCenter := True \<rparr>)"
    using centerRootInViewport_already [OF c'] ok by simp
  then show "\<not> pendingCenter (recenter E vp s)"
    by (simp add: recenter_def tryCenterRootInViewport_def)
next
  let ?s1 = "recenter E vp0 s0"
  assume a: "\<not> pendingCenter ?s1 \<and> relayoutWithHeights E heights ?s1 = Inr s2"
  then have f: "\<not> pendingCenter ?s1"
    and r: "relayoutWithHeights E heights ?s1 = Inr s2" by simp_all
  have k2: "hierarchyKey E s2 = hierarchyKey E ?s1" by (rule relayoutWithHeights_keeps(1) [OF r])
  show c2: "centeredHierarchyKey s2 = Some (hierarchyKey E s2)"
    using relayoutWithHeights_keeps(2) [OF r] recenter_success(1) [OF f] k2 by simp
  show "hierarchyKey E s2 = hierarchyKey E s0"
    using k2 recenter_success(2) [OF f] by simp
  show "translateX (recenter E vp s2) = translateX ?s1"
    using recenter_centered(1) [OF c2] relayoutWithHeights_keeps(3) [OF r] by simp
  show "translateY (recenter E vp s2) = translateY ?s1"
    using recenter_centered(2) [OF c2] relayoutWithHeights_keeps(4) [OF r] by simp
next
  assume "translateX (recenter E vp s) \<noteq> translateX s \<or> translateY (recenter E vp s) \<noteq> translateY s"
  then show "centeredHierarchyKey s \<noteq> Some (hierarchyKey E s)"
    using recenter_centered(1,2) [of s E vp] by blast
next
  assume "centeredHierarchyKey s = Some (hierarchyKey E s) \<and> viewportUnavailable vp"
  then have u: "viewportUnavailable vp" by simp
  show "\<not> fst (centerRootInViewport E vp s)"
    by (simp add: centerRootInViewport_unavailable [OF u])
  show "pendingCenter (recenter E vp s)"
    by (simp add: recenter_def tryCenterRootInViewport_def centerRootInViewport_unavailable [OF u])
qed

lemma single_center_pending:
  "centerRootInViewport singleNodeEnv viewport800x600 (singleNodeLoaded \<lparr> pendingCenter := True \<rparr>)
     = (True, singleNodeLoaded \<lparr> pendingCenter := True, translateX := Finite 302, translateY := Finite 237,
          centeredHierarchyKey := Some ''MyTemplate|001|001|1|0'' \<rparr>)"
proof -
  let ?rootPos = "\<lparr> pos_left = 0, pos_top = Finite 0, pos_depth = 0,
                  pos_centerX = 140, pos_centerY = Finite 90, pos_bottomY = Finite 180 \<rparr>"
  have "centerRootInViewport singleNodeEnv viewport800x600 (singleNodeLoaded \<lparr> pendingCenter := True \<rparr>)
     = (True, singleNodeLoaded \<lparr> pendingCenter := True,
          translateX :=
            Math_round (js_sub (js_half (Finite 800))
              (js_mul (Finite 140) (Finite (3152519739159347 / 4503599627370496)))),
          translateY :=
            Math_round (js_sub (js_half (Finite 600))
              (js_mul (Finite 90) (Finite (3152519739159347 / 4503599627370496)))),
          centeredHierarchyKey := Some ''MyTemplate|001|001|1|0'' \<rparr>)"
    by (simp add: centerRootInViewport_def viewport800x600_def viewportWidth_def
        viewportHeight_def dimension_def currentScale_def single_loaded single_key single_root
        Map_get_def del: js_mul.simps js_half.simps Math_round.simps)
  then show ?thesis by (simp only: single_transform)
qed

lemma centeredState_eq:
  "centeredState = singleNodeLoaded \<lparr> pendingCenter := False, translateX := Finite 302, translateY := Finite 237,
          centeredHierarchyKey := Some ''MyTemplate|001|001|1|0'' \<rparr>"
  by (simp add: centeredState_def recenter_def tryCenterRootInViewport_def single_center_pending)

lemma centeredState_key:
  "hierarchyKey singleNodeEnv centeredState = ''MyTemplate|001|001|1|0''"
proof -
  have "hierarchyKey singleNodeEnv centeredState = hierarchyKey singleNodeEnv singleNodeLoaded"
    by (rule hierarchyKey_cong) (simp_all add: centeredState_eq)
  then show ?thesis by (simp add: single_key)
qed

lemma centeredMeasured_relayout:
  "relayoutWithHeights singleNodeEnv rootHeight60 centeredState = Inr centeredMeasuredState"
  by (simp add: relayoutWithHeights_def rootHeight60_def centeredMeasuredState_def
      afterRelayoutWithHeights_def)

lemma centeredMeasuredState_eq:
  "centeredMeasuredState
     = applyRowHeightLayout singleNodeEnv
         (centeredState \<lparr> measuredHeightsById := [(''001'', Finite 60)] \<rparr>)"
  by (simp add: relayoutWithHeights_def rootHeight60_def centeredMeasuredState_def
      afterRelayoutWithHeights_def)

theorem centering_idempotent_witness:
  "\<not> pendingCenter (recenter singleNodeEnv viewport800x600 singleNodeLoaded) \<and>
   translateX (recenter singleNodeEnv viewport800x600 singleNodeLoaded) = Finite 302 \<and>
   translateY (recenter singleNodeEnv viewport800x600 singleNodeLoaded) = Finite 237 \<and>
   relayoutWithHeights singleNodeEnv rootHeight60
     (recenter singleNodeEnv viewport800x600 singleNodeLoaded) = Inr centeredMeasuredState \<and>
   translateX (recenter singleNodeEnv viewport1000x500 centeredMeasuredState) = Finite 302 \<and>
   translateY (recenter singleNodeEnv viewport1000x500 centeredMeasuredState) = Finite 237 \<and>
   viewportUnavailable (Viewport None) \<and>
   pendingCenter (recenter singleNodeEnv (Viewport None) centeredMeasuredState)"
proof -
  let ?s1 = "recenter singleNodeEnv viewport800x600 singleNodeLoaded"
  have s1: "?s1 = centeredState" by (simp add: centeredState_def)
  have f: "\<not> pendingCenter ?s1" by (simp add: s1 centeredState_eq)
  have r: "relayoutWithHeights singleNodeEnv rootHeight60 ?s1 = Inr centeredMeasuredState"
    by (simp only: s1 centeredMeasured_relayout)
  note idem = centering_idempotent [where E = singleNodeEnv and ?vp0.0 = viewport800x600
      and ?s0.0 = singleNodeLoaded and heights = rootHeight60 and ?s2.0 = centeredMeasuredState
      and vp = viewport1000x500]
  note kept = idem [THEN conjunct2, THEN conjunct1, rule_format, OF conjI, OF f r]
  have x: "translateX (recenter singleNodeEnv viewport1000x500 centeredMeasuredState) = translateX ?s1"
    by (rule kept [THEN conjunct2, THEN conjunct2, THEN conjunct1])
  have y: "translateY (recenter singleNodeEnv viewport1000x500 centeredMeasuredState) = translateY ?s1"
    by (rule kept [THEN conjunct2, THEN conjunct2, THEN conjunct2])
  have t: "translateX ?s1 = Finite 302" "translateY ?s1 = Finite 237"
    by (simp_all add: s1 centeredState_eq)
  have c: "centeredHierarchyKey centeredMeasuredState
      = Some (hierarchyKey singleNodeEnv centeredMeasuredState)"
    by (rule kept [THEN conjunct1])
  have u: "viewportUnavailable (Viewport None)"
    by (simp add: viewportUnavailable_def viewportWidth_def)
  note none = centering_idempotent [where E = singleNodeEnv and s = centeredMeasuredState
      and vp = "Viewport None"]
  have p: "pendingCenter (recenter singleNodeEnv (Viewport None) centeredMeasuredState)"
    using none c u by blast
  show ?thesis
    using f r x y t u p by (simp only: simp_thms)
qed

text \<open>
  C5 (as stated) fails for a viewport without a size: after a successful centering, a
  \<open>recenter\<close> with the same key and no bounding rectangle does not report
  already-centered; it returns unsuccessfully and leaves the pending flag set.
\<close>

theorem already_centered_counterexample:
  "centeredHierarchyKey centeredState = Some (hierarchyKey singleNodeEnv centeredState) \<and>
   \<not> fst (centerRootInViewport singleNodeEnv (Viewport None) centeredState) \<and>
   pendingCenter (recenter singleNodeEnv (Viewport None) centeredState)"
proof -
  have c: "centeredHierarchyKey centeredState = Some ''MyTemplate|001|001|1|0''"
    by (simp add: centeredState_eq)
  have u: "viewportUnavailable (Viewport None)"
    by (simp add: viewportUnavailable_def viewportWidth_def)
  have n: "\<not> fst (centerRootInViewport singleNodeEnv (Viewport None) centeredState)"
    by (simp add: centerRootInViewport_unavailable [OF u])
  have p: "pendingCenter (recenter singleNodeEnv (Viewport None) centeredState)"
    by (simp add: recenter_def tryCenterRootInViewport_def centerRootInViewport_unavailable [OF u])
  show ?thesis using c n p by (simp only: centeredState_key simp_thms)
qed

section \<open>Pan gesture isolation\<close>

text \<open>
  C8 (as amended).  A pointer-down whose target lies within the zoom controls, a node
  box or a card leaves the component unchanged and requests no pointer capture.  A
  pointer-down with the primary button on the empty canvas, while no pan gesture is
  active, starts panning: it records the pointer, its position and the current
  translation, leaves the translation unchanged, and requests pointer capture on an
  element that offers it.
\<close>

theorem pan_gesture_isolation:
  "(ev_inControls ev \<or> ev_inNode ev \<or> ev_inCard ev \<longrightarrow>
      handleCanvasPointerDown (Some ev) s = (s, [])) \<and>
   (\<not> ev_inControls ev \<and> \<not> ev_inNode ev \<and> \<not> ev_inCard ev \<and> ev_button ev = 0 \<and>
    \<not> isPanning s \<longrightarrow>
      isPanning (fst (handleCanvasPointerDown (Some ev) s)) \<and>
      activePointerId (fst (handleCanvasPointerDown (Some ev) s)) = Some (ev_pointerId ev) \<and>
      panStartX (fst (handleCanvasPointerDown (Some ev) s)) = ev_clientX ev \<and>
      panStartY (fst (handleCanvasPointerDown (Some ev) s)) = ev_clientY ev \<and>
      panStartTranslateX (fst (handleCanvasPointerDown (Some ev) s)) = translateX s \<and>
      panStartTranslateY (fst (handleCanvasPointerDown (Some ev) s)) = translateY s \<and>
      translateX (fst (handleCanvasPointerDown (Some ev) s)) = translateX s \<and>
      translateY (fst (handleCanvasPointerDown (Some ev) s)) = translateY s \<and>
      (ev_capturable ev \<longrightarrow>
         snd (handleCanvasPointerDown (Some ev) s)
           = [SetPointerCapture (ev_pointerId ev), PreventDefault]))"
  by (simp add: handleCanvasPointerDown_def)

theorem pan_gesture_isolation_witness:
  "handleCanvasPointerDown (Some (primaryDown \<lparr> ev_inNode := True \<rparr>)) singleNodeLoaded
     = (singleNodeLoaded, []) \<and>
   handleCanvasPointerDown (Some (primaryDown \<lparr> ev_inControls := True \<rparr>)) singleNodeLoaded
     = (singleNodeLoaded, []) \<and>
   isPanning (fst (handleCanvasPointerDown (Some primaryDown) singleNodeLoaded)) \<and>
   activePointerId (fst (handleCanvasPointerDown (Some primaryDown) singleNodeLoaded)) = Some 1 \<and>
   snd (handleCanvasPointerDown (Some primaryDown) singleNodeLoaded)
     = [SetPointerCapture 1, PreventDefault]"
proof -
  have idle: "\<not> isPanning singleNodeLoaded"
    by (simp add: single_defs reflow_defs Let_def)
  note node = pan_gesture_isolation [of "primaryDown \<lparr> ev_inNode := True \<rparr>" singleNodeLoaded]
  note controls = pan_gesture_isolation [of "primaryDown \<lparr> ev_inControls := True \<rparr>" singleNodeLoaded]
  note canvas = pan_gesture_isolation [of primaryDown singleNodeLoaded]
  have a: "handleCanvasPointerDown (Some (primaryDown \<lparr> ev_inNode := True \<rparr>)) singleNodeLoaded
     = (singleNodeLoaded, [])"
    using node by (simp add: primaryDown_def)
  have b: "handleCanvasPointerDown (Some (primaryDown \<lparr> ev_inControls := True \<rparr>)) singleNodeLoaded
     = (singleNodeLoaded, [])"
    using controls by (simp add: primaryDown_def)
  have hyp: "\<not> ev_inControls primaryDown \<and> \<not> ev_inNode primaryDown \<and> \<not> ev_inCard primaryDown \<and>
      ev_button primaryDown = 0 \<and> \<not> isPanning singleNodeLoaded"
    using idle by (simp add: primaryDown_def)
  have cap: "ev_capturable primaryDown" "ev_pointerId primaryDown = 1"
    by (simp_all add: primaryDown_def)
  from canvas [THEN conjunct2, rule_format, OF hyp] cap
  have c: "isPanning (fst (handleCanvasPointerDown (Some primaryDown) singleNodeLoaded))"
    "activePointerId (fst (handleCanvasPointerDown (Some primaryDown) singleNodeLoaded)) = Some 1"
    "snd (handleCanvasPointerDown (Some primaryDown) singleNodeLoaded)
       = [SetPointerCapture 1, PreventDefault]"
    by simp_all
  show ?thesis using a b c by (simp only: simp_thms)
qed

text \<open>
  C8 (as stated) fails for a pointer-down on the empty canvas with a button other than
  the primary one: the handler returns before it starts a pan gesture.
\<close>

theorem secondary_button_counterexample:
  "\<not> ev_inControls (primaryDown \<lparr> ev_button := 2 \<rparr>) \<and>
   \<not> ev_inNode (primaryDown \<lparr> ev_button := 2 \<rparr>) \<and>
   \<not> ev_inCard (primaryDown \<lparr> ev_button := 2 \<rparr>) \<and>
   \<not> isPanning singleNodeLoaded \<and>
   \<not> isPanning (fst (handleCanvasPointerDown (Some (primaryDown \<lparr> ev_button := 2 \<rparr>)) singleNodeLoaded)) \<and>
   snd (handleCanvasPointerDown (Some (primaryDown \<lparr> ev_button := 2 \<rparr>)) singleNodeLoaded) = []"
proof -
  have idle: "\<not> isPanning singleNodeLoaded"
    by (simp add: single_defs reflow_defs Let_def)
  then show ?thesis by (simp add: handleCanvasPointerDown_def primaryDown_def)
qed

end
